theory Spec2Isabelle
  imports Main
begin

section \<open>JSON values\<close>

text \<open>
  The stores hold JSON text. The model keeps the parsed value: \<open>JSON.parse\<close> of a stored
  text is the value, \<open>JSON.stringify\<close> of a value is the text that is stored. Numbers are
  opaque payload for the migration (only their truthiness is ever tested), so they are
  kept as integers. An object is its list of fields, in order.
\<close>

datatype json =
    JNull
  | JBool bool
  | JNum int
  | JStr string
  | JArr "json list"
  | JObj "(string \<times> json) list"

type_synonym session = "(string \<times> json) list"

text \<open>\<open>o[k] = v\<close> on an object: the field keeps its place when it exists, else it is added last.\<close>

fun setField :: "string \<Rightarrow> json \<Rightarrow> (string \<times> json) list \<Rightarrow> (string \<times> json) list" where
  "setField k v [] = [(k, v)]"
| "setField k v ((k', v') # fs) = (if k' = k then (k, v) # fs else (k', v') # setField k v fs)"

text \<open>\<open>s.composerId\<close> of a session object (\<open>None\<close> is \<open>undefined\<close>).\<close>

definition composerId :: "session \<Rightarrow> json option" where
  "composerId s = map_of s ''composerId''"

text \<open>JavaScript truthiness of a JSON value.\<close>

fun truthy :: "json \<Rightarrow> bool" where
  "truthy JNull = False"
| "truthy (JBool b) = b"
| "truthy (JNum n) = (n \<noteq> 0)"
| "truthy (JStr s) = (s \<noteq> [])"
| "truthy (JArr xs) = True"
| "truthy (JObj fs) = True"

text \<open>\<open>Array.prototype.findIndex\<close>: the first index whose element satisfies the predicate;
  \<open>None\<close> is the source's \<open>-1\<close>.\<close>

fun findIndex :: "('a \<Rightarrow> bool) \<Rightarrow> 'a list \<Rightarrow> nat option" where
  "findIndex P [] = None"
| "findIndex P (x # xs) =
     (if P x then Some 0 else (case findIndex P xs of None \<Rightarrow> None | Some i \<Rightarrow> Some (Suc i)))"

text \<open>\<open>xs.filter((_, i) => i !== k)\<close>.\<close>

definition filterIndexNot :: "nat \<Rightarrow> 'a list \<Rightarrow> 'a list" where
  "filterIndexNot k xs = map snd (filter (\<lambda>(i, x). i \<noteq> k) (enumerate 0 xs))"

section \<open>Errors\<close>

text \<open>
  The error classes of \<open>lib/errors.ts\<close> that the migration throws, \<open>new Error(text)\<close>,
  and the errors raised below the repository's code: by the SQLite driver (with the
  driver's text), and by the JavaScript engine (\<open>TypeError\<close>, and \<open>SyntaxError\<close> from
  \<open>JSON.parse\<close>).
\<close>

datatype error =
    SessionNotFoundError string
  | WorkspaceNotFoundError string
  | SameWorkspaceError string
  | NoSessionsFoundError string
  | DestinationHasSessionsError string nat
  | PlainError string
  | SqliteError string
  | TypeError
  | SyntaxError

text \<open>Decimal rendering of a count inside a template literal.\<close>

fun digitsOf :: "nat \<Rightarrow> nat \<Rightarrow> string" where
  "digitsOf 0 n = []"
| "digitsOf (Suc fuel) n =
     (if n < 10 then [char_of (48 + n)] else digitsOf fuel (n div 10) @ [char_of (48 + n mod 10)])"

definition showNat :: "nat \<Rightarrow> string" where
  "showNat n = digitsOf (Suc n) n"

text \<open>\<open>error.message\<close>. The engine's own wording of a \<open>TypeError\<close> or \<open>SyntaxError\<close> is
  not modelled: the error's name stands for it.\<close>

fun message :: "error \<Rightarrow> string" where
  "message (SessionNotFoundError identifier) =
     ''Session not found: '' @ identifier @ ''. Use 'cursor-history list' to see available sessions.''"
| "message (WorkspaceNotFoundError p) =
     ''No workspace found for path: '' @ p @ ''. Please open the project in Cursor first.''"
| "message (SameWorkspaceError p) = ''Source and destination are the same: '' @ p"
| "message (NoSessionsFoundError p) =
     ''No sessions found for workspace: '' @ p @ ''. Use 'cursor-history list --workspace ''
       @ [CHR 0x22] @ p @ [CHR 0x22] @ ''' to verify.''"
| "message (DestinationHasSessionsError p sessionCount) =
     ''Destination already has '' @ showNat sessionCount @ '' session(s): '' @ p @ ''. ''
       @ ''Use --force to proceed (will add sessions alongside existing ones).''"
| "message (PlainError t) = t"
| "message (SqliteError t) = t"
| "message TypeError = ''TypeError''"
| "message SyntaxError = ''SyntaxError''"

section \<open>Paths (lib/platform.ts)\<close>

text \<open>
  What the path functions take from the host: the platform, the home directory, and
  Node's \<open>path.join\<close> and \<open>String.prototype.toLowerCase\<close>, which are not code of the
  repository and are parameters here.
\<close>

record platform =
  win32 :: bool
  homedir :: string
  joinPath :: "string \<Rightarrow> string \<Rightarrow> string"
  toLowerCase :: "string \<Rightarrow> string"

text \<open>\<open>while (s.length > 1 && s.endsWith(c)) s = s.slice(0, -1)\<close>.\<close>

function stripTrailing :: "char \<Rightarrow> string \<Rightarrow> string" where
  "stripTrailing c s = (if length s > 1 \<and> last s = c then stripTrailing c (butlast s) else s)"
  by pat_completeness auto
termination
  by (relation "measure (\<lambda>(c, s). length s)") auto

declare stripTrailing.simps [simp del]

definition normalizePath :: "platform \<Rightarrow> string \<Rightarrow> string" where
  "normalizePath env filePath =
     (let normalized0 =
            (case filePath of
               [] \<Rightarrow> filePath
             | c # rest \<Rightarrow> if c = CHR ''~'' then joinPath env (homedir env) rest else filePath);
          normalized1 = stripTrailing CHR ''/'' normalized0
      in stripTrailing (CHR 0x5C) normalized1)"

definition pathsEqual :: "platform \<Rightarrow> string \<Rightarrow> string \<Rightarrow> bool" where
  "pathsEqual env path1 path2 =
     (let normalized1 = normalizePath env path1;
          normalized2 = normalizePath env path2
      in if win32 env then toLowerCase env normalized1 = toLowerCase env normalized2
         else normalized1 = normalized2)"

section \<open>Stores\<close>

text \<open>A workspace directory as \<open>findWorkspaces\<close> lists it: its directory name, the
  folder path of its \<open>workspace.json\<close>, and the path of its \<open>state.vscdb\<close>.\<close>

record workspace =
  ws_id :: string
  ws_path :: string
  dbPath :: string

text \<open>What \<open>getComposerData\<close> returns and \<open>updateComposerData\<close> takes: the array, and the
  wire shape it was found in.\<close>

record composerData =
  composers :: "session list"
  isNewFormat :: bool
  rawData :: "json option"

text \<open>A workspace's \<open>state.vscdb\<close>: the value under the array key (\<open>None\<close> when the key is
  absent), and whether the driver refuses to open the file read-write (held open by the
  host application) or to write to it.\<close>

record database =
  openFails :: bool
  writeFails :: bool
  composerRow :: "composerData option"

text \<open>A value of the global store's \<open>cursorDiskKV\<close> table: JSON text, or text that
  \<open>JSON.parse\<close> rejects.\<close>

datatype cell = Parsed json | Unparsable

text \<open>The global \<open>state.vscdb\<close>: the rows of \<open>cursorDiskKV\<close> in row order.\<close>

record globalDatabase =
  globalOpenFails :: bool
  globalWriteFails :: bool
  cursorDiskKV :: "(string \<times> cell) list"

text \<open>
  Everything the migration reads and writes: the workspace directories, the database
  files by path, the global database (\<open>None\<close> when the file does not exist), and
  \<open>Math.random\<close>: the n-th call yields \<open>randomSource n\<close>, already scaled to
  \<open>(Math.random() * 16) | 0\<close>, and \<open>randomCalls\<close> counts the calls made so far.
\<close>

record world =
  workspaces :: "workspace list"
  dbs :: "string \<Rightarrow> database option"
  globalDb :: "globalDatabase option"
  randomSource :: "nat \<Rightarrow> nat"
  randomCalls :: nat

text \<open>Modelled from the spec: \<open>openDatabaseReadWrite\<close> of \<open>core/storage.ts\<close> is not among
  the sources. Opening for read-write fails fast when the file is missing or held by the
  host application (\<open>DATABASE_LOCKED\<close>); the handle it returns is the file's path.\<close>

definition openDatabaseReadWrite :: "world \<Rightarrow> string \<Rightarrow> error + string" where
  "openDatabaseReadWrite w p =
     (case dbs w p of
        None \<Rightarrow> Inl (SqliteError ''unable to open database file'')
      | Some db \<Rightarrow> if openFails db then Inl (SqliteError ''database is locked'') else Inr p)"

text \<open>Modelled from the spec: \<open>getComposerData\<close> is not among the sources. It is the
  spec's \<open>read(store)\<close>: the records in order with the observed wire shape; absence of
  the key is \<open>null\<close>, not an error.\<close>

definition getComposerData :: "world \<Rightarrow> string \<Rightarrow> composerData option" where
  "getComposerData w p = (case dbs w p of None \<Rightarrow> None | Some db \<Rightarrow> composerRow db)"

text \<open>Modelled from the spec: \<open>updateComposerData\<close> is not among the sources. It is the
  spec's \<open>write(store, records, rawShapeHint)\<close>: one statement that replaces the whole
  array under the single key, keeping the shape it is given; a refused write throws.\<close>

definition updateComposerData ::
  "string \<Rightarrow> session list \<Rightarrow> bool \<Rightarrow> json option \<Rightarrow> world \<Rightarrow> error + world" where
  "updateComposerData p cs newFormat raw w =
     (case dbs w p of
        None \<Rightarrow> Inl (SqliteError ''unable to open database file'')
      | Some db \<Rightarrow>
          if writeFails db then Inl (SqliteError ''attempt to write a readonly database'')
          else Inr (w\<lparr>dbs := (dbs w)(p \<mapsto>
                 db\<lparr>composerRow := Some \<lparr>composers = cs, isNewFormat = newFormat, rawData = raw\<rparr>\<rparr>)\<rparr>))"

text \<open>The array of a store: no records when the key is absent.\<close>

definition arrayOf :: "world \<Rightarrow> string \<Rightarrow> session list" where
  "arrayOf w p = (case getComposerData w p of None \<Rightarrow> [] | Some r \<Rightarrow> composers r)"

text \<open>A store that opens for read-write and takes writes.\<close>

definition storeUsable :: "world \<Rightarrow> string \<Rightarrow> bool" where
  "storeUsable w p = (case dbs w p of None \<Rightarrow> False | Some db \<Rightarrow> \<not> openFails db \<and> \<not> writeFails db)"

text \<open>A store that opens for read-write.\<close>

definition storeOpens :: "world \<Rightarrow> string \<Rightarrow> bool" where
  "storeOpens w p = (case dbs w p of None \<Rightarrow> False | Some db \<Rightarrow> \<not> openFails db)"

text \<open>Whether a store's array holds a record with the identifier.\<close>

definition holdsSession :: "world \<Rightarrow> string \<Rightarrow> string \<Rightarrow> bool" where
  "holdsSession w p sid =
     (case getComposerData w p of
        None \<Rightarrow> False
      | Some r \<Rightarrow> findIndex (\<lambda>s. composerId s = Some (JStr sid)) (composers r) \<noteq> None)"

text \<open>Modelled from the spec: \<open>findWorkspaceForSession\<close> is not among the sources. It is
  the spec's \<open>locateBySource\<close>: it scans the known stores' arrays, in listing order, for a
  record with the identifier and returns the owning store, or \<open>null\<close>.\<close>

definition findWorkspaceForSession :: "string \<Rightarrow> world \<Rightarrow> workspace option" where
  "findWorkspaceForSession sid w =
     find (\<lambda>ws. holdsSession w (dbPath ws) sid) (workspaces w)"

text \<open>Modelled from the spec: \<open>findWorkspaceByPath\<close> is not among the sources. It is the
  spec's \<open>locateByPath\<close>: the store whose associated workspace path, after
  normalization, equals the path, or \<open>null\<close>.\<close>

definition findWorkspaceByPath :: "platform \<Rightarrow> string \<Rightarrow> world \<Rightarrow> workspace option" where
  "findWorkspaceByPath env p w = find (\<lambda>ws. pathsEqual env (ws_path ws) p) (workspaces w)"

section \<open>Identifier generation (core/migrate.ts)\<close>

definition hexDigit :: "nat \<Rightarrow> char" where
  "hexDigit v = ''0123456789abcdef'' ! (v mod 16)"

text \<open>
  The callback of \<open>template.replace(/[xy]/g, ...)\<close>, run left to right: every \<open>x\<close> and
  \<open>y\<close> takes one call of \<open>Math.random\<close>; \<open>r = (Math.random() * 16) | 0\<close>,
  \<open>v = c === 'x' ? r : (r & 0x3) | 0x8\<close> (for \<open>r < 16\<close> that is \<open>r mod 4 + 8\<close>), and the
  character is replaced by \<open>v.toString(16)\<close>. The second component counts the calls.
\<close>

fun fillTemplate :: "string \<Rightarrow> (nat \<Rightarrow> nat) \<Rightarrow> nat \<Rightarrow> string \<times> nat" where
  "fillTemplate [] rnd n = ([], n)"
| "fillTemplate (c # cs) rnd n =
     (if c = CHR ''x'' \<or> c = CHR ''y'' then
        (let r = rnd n mod 16;
             v = (if c = CHR ''x'' then r else r mod 4 + 8);
             (rest, n') = fillTemplate cs rnd (Suc n)
         in (hexDigit v # rest, n'))
      else
        (let (rest, n') = fillTemplate cs rnd n in (c # rest, n')))"

definition generateSessionId :: "world \<Rightarrow> string \<times> world" where
  "generateSessionId w =
     (let (s, n) = fillTemplate ''xxxxxxxx-xxxx-4xxx-yxxx-xxxxxxxxxxxx'' (randomSource w) (randomCalls w)
      in (s, w\<lparr>randomCalls := n\<rparr>))"

section \<open>Replicating content items in the global store (core/migrate.ts)\<close>

text \<open>SQLite's \<open>LIKE\<close>: \<open>%\<close> matches any run of characters, \<open>_\<close> any one character, and
  ASCII letters match without regard to case.\<close>

definition lowerAscii :: "char \<Rightarrow> char" where
  "lowerAscii c = (let n = (of_char c :: nat) in if 65 \<le> n \<and> n \<le> 90 then char_of (n + 32) else c)"

fun like :: "string \<Rightarrow> string \<Rightarrow> bool" where
  "like [] s = (s = [])"
| "like (p # ps) [] = (p = CHR ''%'' \<and> like ps [])"
| "like (p # ps) (c # cs) =
     (if p = CHR ''%'' then like ps (c # cs) \<or> like (p # ps) cs
      else (p = CHR ''_'' \<or> lowerAscii p = lowerAscii c) \<and> like ps cs)"

text \<open>\<open>key.split(':')\<close>.\<close>

fun splitOn :: "char \<Rightarrow> string \<Rightarrow> string list" where
  "splitOn d [] = [[]]"
| "splitOn d (c # cs) =
     (if c = d then [] # splitOn d cs
      else (case splitOn d cs of [] \<Rightarrow> [[c]] | p # ps \<Rightarrow> (c # p) # ps))"

text \<open>\<open>parts[i]\<close>: \<open>undefined\<close> out of range.\<close>

definition nthOpt :: "'a list \<Rightarrow> nat \<Rightarrow> 'a option" where
  "nthOpt xs i = (if i < length xs then Some (xs ! i) else None)"

text \<open>\<open>JSON.parse(row.value)\<close>.\<close>

fun parseCell :: "cell \<Rightarrow> error + json" where
  "parseCell (Parsed j) = Inr j"
| "parseCell Unparsable = Inl SyntaxError"

text \<open>\<open>v[k]\<close> for a key that is no index and no built-in property: a \<open>TypeError\<close> on
  \<open>null\<close>, the field of an object, \<open>undefined\<close> on anything else.\<close>

fun getProp :: "json \<Rightarrow> string \<Rightarrow> error + json option" where
  "getProp JNull k = Inl TypeError"
| "getProp (JObj fs) k = Inr (map_of fs k)"
| "getProp j k = Inr None"

text \<open>\<open>v[k] = x\<close> in a module (strict mode), as \<open>JSON.stringify\<close> sees the result: a
  \<open>TypeError\<close> on \<open>null\<close> and on a primitive; a property set on an array is not
  serialized.\<close>

fun setProp :: "json \<Rightarrow> string \<Rightarrow> json \<Rightarrow> error + json" where
  "setProp (JObj fs) k x = Inr (JObj (setField k x fs))"
| "setProp (JArr xs) k x = Inr (JArr xs)"
| "setProp j k x = Inl TypeError"

text \<open>What \<open>for (const header of composerData.fullConversationHeadersOnly || [])\<close> iterates
  over: nothing for a falsy value, the elements of an array, the characters of a string;
  any other value is not iterable.\<close>

fun iterationOf :: "json option \<Rightarrow> error + json list" where
  "iterationOf None = Inr []"
| "iterationOf (Some (JArr xs)) = Inr xs"
| "iterationOf (Some (JStr s)) = Inr (map (\<lambda>c. JStr [c]) s)"
| "iterationOf (Some j) = (if truthy j then Inl TypeError else Inr [])"

text \<open>\<open>{ ...header, bubbleId: newBubbleId }\<close>; only reached for an object.\<close>

fun spreadWith :: "json \<Rightarrow> string \<Rightarrow> json \<Rightarrow> json" where
  "spreadWith (JObj fs) k x = JObj (setField k x fs)"
| "spreadWith j k x = JObj [(k, x)]"

text \<open>\<open>INSERT OR REPLACE INTO cursorDiskKV (key, value)\<close>: the row with the key, if any, is
  deleted and the new row is added last.\<close>

definition insertOrReplace :: "string \<Rightarrow> cell \<Rightarrow> world \<Rightarrow> error + world" where
  "insertOrReplace k v w =
     (case globalDb w of
        None \<Rightarrow> Inl (SqliteError ''unable to open database file'')
      | Some g \<Rightarrow>
          if globalWriteFails g then Inl (SqliteError ''attempt to write a readonly database'')
          else Inr (w\<lparr>globalDb := Some (g\<lparr>cursorDiskKV :=
                 filter (\<lambda>(k', v'). k' \<noteq> k) (cursorDiskKV g) @ [(k, v)]\<rparr>)\<rparr>))"

text \<open>The first loop of \<open>copyBubbleDataInGlobalStorage\<close>: a fresh id for every header with
  a truthy \<open>bubbleId\<close>, recorded in \<open>bubbleIdMap\<close>, and the header rewritten.\<close>

fun remapHeaders ::
  "json list \<Rightarrow> (json \<Rightarrow> string option) \<Rightarrow> json list \<Rightarrow> world
     \<Rightarrow> (error + (json \<Rightarrow> string option) \<times> json list) \<times> world" where
  "remapHeaders [] bubbleIdMap newBubbleHeaders w = (Inr (bubbleIdMap, newBubbleHeaders), w)"
| "remapHeaders (header # rest) bubbleIdMap newBubbleHeaders w =
     (case getProp header ''bubbleId'' of
        Inl e \<Rightarrow> (Inl e, w)
      | Inr None \<Rightarrow> remapHeaders rest bubbleIdMap newBubbleHeaders w
      | Inr (Some b) \<Rightarrow>
          if truthy b then
            (let (newBubbleId, w') = generateSessionId w
             in remapHeaders rest (bubbleIdMap(b \<mapsto> newBubbleId))
                  (newBubbleHeaders @ [spreadWith header ''bubbleId'' (JStr newBubbleId)]) w')
          else remapHeaders rest bubbleIdMap newBubbleHeaders w)"

text \<open>Step 1: the \<open>composerData:<id>\<close> entry is copied under the new id with its header
  list rewritten.\<close>

definition copyComposerEntry ::
  "string \<Rightarrow> string \<Rightarrow> globalDatabase \<Rightarrow> world \<Rightarrow> (error + (json \<Rightarrow> string option)) \<times> world" where
  "copyComposerEntry oldComposerId newComposerId g w =
     (case map_of (cursorDiskKV g) (''composerData:'' @ oldComposerId) of
        None \<Rightarrow> (Inr Map.empty, w)
      | Some composerDataRow \<Rightarrow>
          (case parseCell composerDataRow of
             Inl e \<Rightarrow> (Inl e, w)
           | Inr parsed \<Rightarrow>
               (case setProp parsed ''composerId'' (JStr newComposerId) of
                  Inl e \<Rightarrow> (Inl e, w)
                | Inr composerData1 \<Rightarrow>
                    (case getProp composerData1 ''fullConversationHeadersOnly'' of
                       Inl e \<Rightarrow> (Inl e, w)
                     | Inr oldHeaders \<Rightarrow>
                         (case iterationOf oldHeaders of
                            Inl e \<Rightarrow> (Inl e, w)
                          | Inr oldBubbleHeaders \<Rightarrow>
                              (case remapHeaders oldBubbleHeaders Map.empty [] w of
                                 (Inl e, w1) \<Rightarrow> (Inl e, w1)
                               | (Inr (bubbleIdMap, newBubbleHeaders), w1) \<Rightarrow>
                                   (case setProp composerData1 ''fullConversationHeadersOnly''
                                           (JArr newBubbleHeaders) of
                                      Inl e \<Rightarrow> (Inl e, w1)
                                    | Inr composerData2 \<Rightarrow>
                                        (case insertOrReplace (''composerData:'' @ newComposerId)
                                                (Parsed composerData2) w1 of
                                           Inl e \<Rightarrow> (Inl e, w1)
                                         | Inr w2 \<Rightarrow> (Inr bubbleIdMap, w2)))))))))"

text \<open>Step 2, the loop over the rows selected by
  \<open>key LIKE 'bubbleId:<oldComposerId>:%'\<close>: each is stored again under the new composer
  id and its new bubble id (the one of the map, or a fresh one).\<close>

fun copyBubbleRows ::
  "(string \<times> cell) list \<Rightarrow> string \<Rightarrow> (json \<Rightarrow> string option) \<Rightarrow> world
     \<Rightarrow> (error + (json \<Rightarrow> string option)) \<times> world" where
  "copyBubbleRows [] newComposerId bubbleIdMap w = (Inr bubbleIdMap, w)"
| "copyBubbleRows ((rowKey, rowValue) # rest) newComposerId bubbleIdMap w =
     (case nthOpt (splitOn CHR '':'' rowKey) 2 of
        None \<Rightarrow> copyBubbleRows rest newComposerId bubbleIdMap w
      | Some oldBubbleId \<Rightarrow>
          if oldBubbleId = [] then copyBubbleRows rest newComposerId bubbleIdMap w
          else
            (let (newBubbleId, bubbleIdMap1, w1) =
                   (case bubbleIdMap (JStr oldBubbleId) of
                      Some known \<Rightarrow> (known, bubbleIdMap, w)
                    | None \<Rightarrow>
                        (let (fresh, w') = generateSessionId w
                         in (fresh, bubbleIdMap(JStr oldBubbleId \<mapsto> fresh), w')))
             in (case parseCell rowValue of
                   Inl e \<Rightarrow> (Inl e, w1)
                 | Inr parsed \<Rightarrow>
                     (case setProp parsed ''bubbleId'' (JStr newBubbleId) of
                        Inl e \<Rightarrow> (Inl e, w1)
                      | Inr bubbleData \<Rightarrow>
                          (case insertOrReplace (''bubbleId:'' @ newComposerId @ '':'' @ newBubbleId)
                                  (Parsed bubbleData) w1 of
                             Inl e \<Rightarrow> (Inl e, w1)
                           | Inr w2 \<Rightarrow> copyBubbleRows rest newComposerId bubbleIdMap1 w2)))))"

definition copyBubbleDataInGlobalStorage ::
  "string \<Rightarrow> string \<Rightarrow> world \<Rightarrow> (error + (json \<Rightarrow> string option)) \<times> world" where
  "copyBubbleDataInGlobalStorage oldComposerId newComposerId w =
     (case globalDb w of
        None \<Rightarrow> (Inr Map.empty, w)
      | Some g \<Rightarrow>
          if globalOpenFails g then (Inl (SqliteError ''database is locked''), w)
          else
            (case copyComposerEntry oldComposerId newComposerId g w of
               (Inl e, w1) \<Rightarrow> (Inl e, w1)
             | (Inr bubbleIdMap, w1) \<Rightarrow>
                 (let bubbleRows =
                        (case globalDb w1 of
                           None \<Rightarrow> []
                         | Some g1 \<Rightarrow>
                             filter (\<lambda>(k, v). like (''bubbleId:'' @ oldComposerId @ '':%'') k)
                               (cursorDiskKV g1))
                  in copyBubbleRows bubbleRows newComposerId bubbleIdMap w1)))"

section \<open>Migrating sessions (core/migrate.ts)\<close>

datatype migrationMode = Move | Copy

record sessionMigrationResult =
  success :: bool
  sessionId :: string
  sourceWorkspace :: string
  destinationWorkspace :: string
  mode :: migrationMode
  newSessionId :: "string option"
  error :: "string option"
  dryRun :: bool

text \<open>
  The body of the \<open>try\<close> of \<open>migrateSession\<close>: both databases are opened, both arrays are
  read, the session is looked up in the source array, and the arrays are written. An
  error thrown on the way is the left value, with the world as the writes made before it
  left it.
\<close>

definition performMigration ::
  "string \<Rightarrow> migrationMode \<Rightarrow> string \<Rightarrow> string \<Rightarrow> workspace \<Rightarrow> workspace \<Rightarrow> world
     \<Rightarrow> (error + sessionMigrationResult) \<times> world" where
  "performMigration sid md srcPath normalizedDest sourceInfo destInfo w =
     (case openDatabaseReadWrite w (dbPath sourceInfo) of
        Inl e \<Rightarrow> (Inl e, w)
      | Inr sourceDb \<Rightarrow>
     (case openDatabaseReadWrite w (dbPath destInfo) of
        Inl e \<Rightarrow> (Inl e, w)
      | Inr destDb \<Rightarrow>
     (let sourceResult = getComposerData w sourceDb;
          destResult = getComposerData w destDb
      in
     (case sourceResult of
        None \<Rightarrow> (Inl (PlainError ''Source workspace has no composer data''), w)
      | Some sr \<Rightarrow>
     (case findIndex (\<lambda>s. composerId s = Some (JStr sid)) (composers sr) of
        None \<Rightarrow> (Inl (SessionNotFoundError sid), w)
      | Some sessionIndex \<Rightarrow>
     (let sessionToMigrate = composers sr ! sessionIndex;
          destComposers = (case destResult of None \<Rightarrow> [] | Some dr \<Rightarrow> composers dr);
          destFormat = (case destResult of None \<Rightarrow> isNewFormat sr | Some dr \<Rightarrow> isNewFormat dr);
          destRaw = (case destResult of None \<Rightarrow> None | Some dr \<Rightarrow> rawData dr)
      in
     (case md of
        Move \<Rightarrow>
          (let newSourceComposers = filterIndexNot sessionIndex (composers sr)
           in (case updateComposerData sourceDb newSourceComposers (isNewFormat sr) (rawData sr) w of
                 Inl e \<Rightarrow> (Inl e, w)
               | Inr w1 \<Rightarrow>
                   (let newDestComposers = destComposers @ [sessionToMigrate]
                    in (case updateComposerData destDb newDestComposers destFormat destRaw w1 of
                          Inl e \<Rightarrow> (Inl e, w1)
                        | Inr w2 \<Rightarrow>
                            (Inr \<lparr>success = True, sessionId = sid, sourceWorkspace = srcPath,
                                  destinationWorkspace = normalizedDest, mode = Move,
                                  newSessionId = None, error = None, dryRun = False\<rparr>, w2)))))
      | Copy \<Rightarrow>
          (let (newId, w1) = generateSessionId w
           in (case copyBubbleDataInGlobalStorage sid newId w1 of
                 (Inl e, w2) \<Rightarrow> (Inl e, w2)
               | (Inr bubbleIdMap, w2) \<Rightarrow>
                   (let copiedSession = setField ''composerId'' (JStr newId) sessionToMigrate;
                        newDestComposers = destComposers @ [copiedSession]
                    in (case updateComposerData destDb newDestComposers destFormat destRaw w2 of
                          Inl e \<Rightarrow> (Inl e, w2)
                        | Inr w3 \<Rightarrow>
                            (Inr \<lparr>success = True, sessionId = sid, sourceWorkspace = srcPath,
                                  destinationWorkspace = normalizedDest, mode = Copy,
                                  newSessionId = Some newId, error = None, dryRun = False\<rparr>, w3))))))))))))"

text \<open>
  \<open>migrateSession\<close> past resolution and validation: the dry-run preview, or the \<open>try\<close>
  with its \<open>catch\<close>, which returns an error thrown inside as a failure result.
\<close>

definition migrateResolved ::
  "string \<Rightarrow> migrationMode \<Rightarrow> bool \<Rightarrow> string \<Rightarrow> string \<Rightarrow> workspace \<Rightarrow> workspace \<Rightarrow> world
     \<Rightarrow> sessionMigrationResult \<times> world" where
  "migrateResolved sid md dry srcPath normalizedDest sourceInfo destInfo w =
     (if dry then
        (\<lparr>success = True, sessionId = sid, sourceWorkspace = srcPath,
          destinationWorkspace = normalizedDest, mode = md,
          newSessionId = None, error = None, dryRun = True\<rparr>, w)
      else
        (case performMigration sid md srcPath normalizedDest sourceInfo destInfo w of
           (Inr result, w') \<Rightarrow> (result, w')
         | (Inl e, w') \<Rightarrow>
             (\<lparr>success = False, sessionId = sid, sourceWorkspace = srcPath,
               destinationWorkspace = normalizedDest, mode = md,
               newSessionId = None, error = Some (message e),
               dryRun = False\<rparr>, w')))"

text \<open>
  \<open>migrateSession\<close>. The three errors of resolution and validation are thrown (the left
  value); past them the function returns a result.
\<close>

definition migrateSession ::
  "platform \<Rightarrow> string \<Rightarrow> string \<Rightarrow> migrationMode \<Rightarrow> bool \<Rightarrow> world
     \<Rightarrow> (error + sessionMigrationResult) \<times> world" where
  "migrateSession env sid dest md dry w =
     (let normalizedDest = normalizePath env dest
      in (case findWorkspaceForSession sid w of
            None \<Rightarrow> (Inl (SessionNotFoundError sid), w)
          | Some sourceInfo \<Rightarrow>
              (let srcPath = ws_path sourceInfo
               in if pathsEqual env srcPath normalizedDest
                  then (Inl (SameWorkspaceError normalizedDest), w)
                  else
                    (case findWorkspaceByPath env normalizedDest w of
                       None \<Rightarrow> (Inl (WorkspaceNotFoundError normalizedDest), w)
                     | Some destInfo \<Rightarrow>
                         (case migrateResolved sid md dry srcPath normalizedDest sourceInfo destInfo w of
                            (result, w') \<Rightarrow> (Inr result, w'))))))"

text \<open>The loop of \<open>migrateSessions\<close>, with \<open>results\<close> as its accumulator: a thrown error is
  caught and pushed as a failure result, and the loop goes on.\<close>

fun migrateSessionsLoop ::
  "platform \<Rightarrow> string list \<Rightarrow> string \<Rightarrow> migrationMode \<Rightarrow> bool
     \<Rightarrow> sessionMigrationResult list \<Rightarrow> world \<Rightarrow> sessionMigrationResult list \<times> world" where
  "migrateSessionsLoop env [] dest md dry results w = (results, w)"
| "migrateSessionsLoop env (sid # rest) dest md dry results w =
     (case migrateSession env sid dest md dry w of
        (Inr result, w') \<Rightarrow> migrateSessionsLoop env rest dest md dry (results @ [result]) w'
      | (Inl e, w') \<Rightarrow>
          migrateSessionsLoop env rest dest md dry
            (results @ [\<lparr>success = False, sessionId = sid, sourceWorkspace = ''unknown'',
                         destinationWorkspace = dest, mode = md, newSessionId = None,
                         error = Some (message e), dryRun = dry\<rparr>]) w')"

definition migrateSessions ::
  "platform \<Rightarrow> string list \<Rightarrow> string \<Rightarrow> migrationMode \<Rightarrow> bool \<Rightarrow> world
     \<Rightarrow> sessionMigrationResult list \<times> world" where
  "migrateSessions env sessionIds dest md dry w = migrateSessionsLoop env sessionIds dest md dry [] w"

record workspaceMigrationResult =
  agg_success :: bool
  agg_source :: string
  agg_destination :: string
  agg_mode :: migrationMode
  totalSessions :: nat
  successCount :: nat
  failureCount :: nat
  results :: "sessionMigrationResult list"
  agg_dryRun :: bool

text \<open>\<open>ids.filter((id): id is string => typeof id === 'string')\<close>.\<close>

fun stringIds :: "json option list \<Rightarrow> string list" where
  "stringIds [] = []"
| "stringIds (Some (JStr s) # rest) = s # stringIds rest"
| "stringIds (j # rest) = stringIds rest"

text \<open>The destination guard of \<open>migrateWorkspace\<close>: the error it throws, if any.\<close>

definition destinationGuard :: "bool \<Rightarrow> string \<Rightarrow> workspace \<Rightarrow> world \<Rightarrow> error option" where
  "destinationGuard force normalizedDest destInfo w =
     (if \<not> force then
        (case openDatabaseReadWrite w (dbPath destInfo) of
           Inl e \<Rightarrow> Some e
         | Inr destDb \<Rightarrow>
             (case getComposerData w destDb of
                None \<Rightarrow> None
              | Some dr \<Rightarrow>
                  if length (composers dr) > 0
                  then Some (DestinationHasSessionsError normalizedDest (length (composers dr)))
                  else None))
      else None)"

definition migrateWorkspace ::
  "platform \<Rightarrow> string \<Rightarrow> string \<Rightarrow> migrationMode \<Rightarrow> bool \<Rightarrow> bool \<Rightarrow> world
     \<Rightarrow> (error + workspaceMigrationResult) \<times> world" where
  "migrateWorkspace env src dest md dry force w =
     (let normalizedSource = normalizePath env src;
          normalizedDest = normalizePath env dest
      in if pathsEqual env normalizedSource normalizedDest
         then (Inl (SameWorkspaceError normalizedSource), w)
         else
     (case findWorkspaceByPath env normalizedSource w of
        None \<Rightarrow> (Inl (WorkspaceNotFoundError normalizedSource), w)
      | Some sourceInfo \<Rightarrow>
     (case findWorkspaceByPath env normalizedDest w of
        None \<Rightarrow> (Inl (WorkspaceNotFoundError normalizedDest), w)
      | Some destInfo \<Rightarrow>
     (case openDatabaseReadWrite w (dbPath sourceInfo) of
        Inl e \<Rightarrow> (Inl e, w)
      | Inr sourceDb \<Rightarrow>
     (case getComposerData w sourceDb of
        None \<Rightarrow> (Inl (NoSessionsFoundError normalizedSource), w)
      | Some sr \<Rightarrow>
          if length (composers sr) = 0 then (Inl (NoSessionsFoundError normalizedSource), w)
          else
     (case destinationGuard force normalizedDest destInfo w of
        Some e \<Rightarrow> (Inl e, w)
      | None \<Rightarrow>
     (let sessionIds = stringIds (map composerId (composers sr))
      in if length sessionIds = 0 then (Inl (NoSessionsFoundError normalizedSource), w)
         else
           (let (rs, w') = migrateSessions env sessionIds normalizedDest md dry w;
                nSuccess = length (filter (\<lambda>r. success r) rs);
                nFailure = length (filter (\<lambda>r. \<not> success r) rs)
            in (Inr \<lparr>agg_success = (nFailure = 0), agg_source = normalizedSource,
                      agg_destination = normalizedDest, agg_mode = md,
                      totalSessions = length rs, successCount = nSuccess,
                      failureCount = nFailure, results = rs, agg_dryRun = dry\<rparr>, w')))))))))"

section \<open>Notions used to state the properties\<close>

text \<open>Two states with the same workspace listing, the same workspace databases and the
  same random source: they differ at most in the global store and in the number of
  random values drawn.\<close>

definition sameStores :: "world \<Rightarrow> world \<Rightarrow> bool" where
  "sameStores w w' \<longleftrightarrow>
     workspaces w' = workspaces w \<and> dbs w' = dbs w \<and> randomSource w' = randomSource w"

text \<open>The rows of the global store's \<open>cursorDiskKV\<close> table (none when the file does not
  exist).\<close>

definition kvRows :: "world \<Rightarrow> (string \<times> cell) list" where
  "kvRows w = (case globalDb w of None \<Rightarrow> [] | Some g \<Rightarrow> cursorDiskKV g)"

text \<open>\<open>header.bubbleId\<close> where reading it does not throw.\<close>

definition bubbleIdOf :: "json \<Rightarrow> json option" where
  "bubbleIdOf header = (case getProp header ''bubbleId'' of Inl e \<Rightarrow> None | Inr b \<Rightarrow> b)"

text \<open>The bubble id the second loop reads off a row's key: \<open>key.split(':')[2]\<close>.\<close>

definition keyBubbleId :: "string \<Rightarrow> string option" where
  "keyBubbleId k = nthOpt (splitOn CHR '':'' k) 2"

text \<open>The key of a content item: \<open>bubbleId:<composerId>:<bubbleId>\<close>.\<close>

definition bubbleKey :: "string \<Rightarrow> string \<Rightarrow> string" where
  "bubbleKey composer bubble = ''bubbleId:'' @ composer @ '':'' @ bubble"

text \<open>The new content-item id that \<open>bubbleIdMap\<close> gives the bubble id of a row's key.\<close>

definition assignedId :: "(json \<Rightarrow> string option) \<Rightarrow> string \<times> cell \<Rightarrow> string option" where
  "assignedId m row = (case keyBubbleId (fst row) of None \<Rightarrow> None | Some b \<Rightarrow> m (JStr b))"

text \<open>
  A global store from which the content of a record can be replicated: the file does
  not exist, or it opens and takes writes, the metadata of the record (if it has any) is
  a JSON object whose header list (if it has one) is an array without \<open>null\<close>, and the
  content items of the record are JSON objects.
\<close>

fun jsonObject :: "cell \<Rightarrow> bool" where
  "jsonObject (Parsed (JObj fs)) = True"
| "jsonObject c = False"

fun headersIterable :: "json option \<Rightarrow> bool" where
  "headersIterable None = True"
| "headersIterable (Some (JArr hs)) = (JNull \<notin> set hs)"
| "headersIterable (Some j) = False"

fun metadataCopyable :: "cell option \<Rightarrow> bool" where
  "metadataCopyable None = True"
| "metadataCopyable (Some (Parsed (JObj fs))) = headersIterable (map_of fs ''fullConversationHeadersOnly'')"
| "metadataCopyable (Some c) = False"

definition replicable :: "string \<Rightarrow> world \<Rightarrow> bool" where
  "replicable old w =
     (case globalDb w of
        None \<Rightarrow> True
      | Some g \<Rightarrow>
          \<not> globalOpenFails g \<and> \<not> globalWriteFails g \<and>
          metadataCopyable (map_of (cursorDiskKV g) (''composerData:'' @ old)) \<and>
          list_all (\<lambda>(k, c). jsonObject c)
            (filter (\<lambda>(k, c). like (''bubbleId:'' @ old @ '':%'') k) (cursorDiskKV g)))"

section \<open>An example installation\<close>

text \<open>
  A Unix host and two workspaces: \<open>/a\<close> with the sessions \<open>r1\<close> and \<open>r2\<close>, and \<open>/b\<close> with no
  array yet. The global store holds the metadata of \<open>r1\<close>, whose header list names the
  bubbles \<open>b1\<close> and \<open>b2\<close>, and both bubbles.
\<close>

definition exampleEnv :: platform where
  "exampleEnv = \<lparr>win32 = False, homedir = ''/home/u'', joinPath = (\<lambda>a b. a @ b),
                  toLowerCase = (\<lambda>s. s)\<rparr>"

definition exampleSession :: "string \<Rightarrow> session" where
  "exampleSession i = [(''composerId'', JStr i), (''name'', JStr ''chat'')]"

definition exampleGlobal :: globalDatabase where
  "exampleGlobal =
     \<lparr>globalOpenFails = False, globalWriteFails = False,
      cursorDiskKV =
        [(''composerData:r1'',
            Parsed (JObj [(''composerId'', JStr ''r1''),
                          (''fullConversationHeadersOnly'',
                             JArr [JObj [(''bubbleId'', JStr ''b1''), (''type'', JNum 1)],
                                   JObj [(''bubbleId'', JStr ''b2''), (''type'', JNum 2)]])])),
         (''bubbleId:r1:b1'', Parsed (JObj [(''bubbleId'', JStr ''b1''), (''text'', JStr ''hi'')])),
         (''bubbleId:r1:b2'', Parsed (JObj [(''bubbleId'', JStr ''b2''), (''text'', JStr ''yo'')]))]\<rparr>"

definition exampleWorld :: world where
  "exampleWorld =
     \<lparr>workspaces = [\<lparr>ws_id = ''1'', ws_path = ''/a'', dbPath = ''da''\<rparr>,
                    \<lparr>ws_id = ''2'', ws_path = ''/b'', dbPath = ''db''\<rparr>],
      dbs = [''da'' \<mapsto> \<lparr>openFails = False, writeFails = False,
                           composerRow = Some \<lparr>composers = [exampleSession ''r1'', exampleSession ''r2''],
                                                isNewFormat = True, rawData = None\<rparr>\<rparr>,
             ''db'' \<mapsto> \<lparr>openFails = False, writeFails = False, composerRow = None\<rparr>],
      globalDb = Some exampleGlobal,
      randomSource = (\<lambda>n. n),
      randomCalls = 0\<rparr>"

text \<open>The example after the host application has dropped \<open>r1\<close> from the array of \<open>/a\<close>.\<close>

definition exampleWorldRaced :: world where
  "exampleWorldRaced =
     exampleWorld\<lparr>dbs := (dbs exampleWorld)(''da'' \<mapsto>
       \<lparr>openFails = False, writeFails = False,
        composerRow = Some \<lparr>composers = [exampleSession ''r2''], isNewFormat = True, rawData = None\<rparr>\<rparr>)\<rparr>"

text \<open>The example with the array of \<open>/a\<close> replaced: the given records, then one record
  without an identifier and one whose identifier is a number.\<close>

definition exampleWorldAnonymous :: "session list \<Rightarrow> world" where
  "exampleWorldAnonymous extra =
     exampleWorld\<lparr>dbs := (dbs exampleWorld)(''da'' \<mapsto>
       \<lparr>openFails = False, writeFails = False,
        composerRow = Some \<lparr>composers = extra @ [[(''name'', JStr ''untitled'')],
                                                 [(''composerId'', JNum 7)]],
                             isNewFormat = True, rawData = None\<rparr>\<rparr>)\<rparr>"

text \<open>The example with one record, \<open>x1\<close>, already in the array of \<open>/b\<close>.\<close>

definition exampleWorldBusy :: world where
  "exampleWorldBusy =
     exampleWorld\<lparr>dbs := (dbs exampleWorld)(''db'' \<mapsto>
       \<lparr>openFails = False, writeFails = False,
        composerRow = Some \<lparr>composers = [exampleSession ''x1''], isNewFormat = False,
                             rawData = None\<rparr>\<rparr>)\<rparr>"

text \<open>The example with the only record of \<open>/a\<close> carrying the identifier that the random
  source of the example yields first.\<close>

definition exampleCollidingId :: string where
  "exampleCollidingId = ''01234567-89ab-4cde-b012-3456789abcde''"

definition exampleWorldCollision :: world where
  "exampleWorldCollision =
     exampleWorld\<lparr>dbs := (dbs exampleWorld)(''da'' \<mapsto>
       \<lparr>openFails = False, writeFails = False,
        composerRow = Some \<lparr>composers = [exampleSession exampleCollidingId], isNewFormat = True,
                             rawData = None\<rparr>\<rparr>)\<rparr>"

text \<open>The example with the header list of \<open>r1\<close> naming the bubble \<open>b1\<close> twice.\<close>

definition exampleWorldRepeated :: world where
  "exampleWorldRepeated =
     exampleWorld\<lparr>globalDb := Some
       \<lparr>globalOpenFails = False, globalWriteFails = False,
        cursorDiskKV =
          [(''composerData:r1'',
              Parsed (JObj [(''composerId'', JStr ''r1''),
                            (''fullConversationHeadersOnly'',
                               JArr [JObj [(''bubbleId'', JStr ''b1''), (''type'', JNum 1)],
                                     JObj [(''bubbleId'', JStr ''b1''), (''type'', JNum 1)]])])),
           (''bubbleId:r1:b1'', Parsed (JObj [(''bubbleId'', JStr ''b1''), (''text'', JStr ''hi'')]))]\<rparr>\<rparr>"

text \<open>
  The example with a third workspace: \<open>/b\<close> now holds \<open>x1\<close>, and the empty store is the one
  of the folder named by a backslash inside \<open>/b\<close> (its path is \<open>/b/\<close> followed by a
  backslash). The destination asked for is that path followed by a slash and a
  backslash.
\<close>

definition exampleDestination :: string where
  "exampleDestination = ''/b/'' @ [CHR 0x5C] @ ''/'' @ [CHR 0x5C]"

definition exampleWorldAliased :: world where
  "exampleWorldAliased =
     exampleWorld\<lparr>
       workspaces := [\<lparr>ws_id = ''1'', ws_path = ''/a'', dbPath = ''da''\<rparr>,
                      \<lparr>ws_id = ''2'', ws_path = ''/b/'' @ [CHR 0x5C], dbPath = ''db''\<rparr>,
                      \<lparr>ws_id = ''3'', ws_path = ''/b'', dbPath = ''dc''\<rparr>],
       dbs := (dbs exampleWorld)(''dc'' \<mapsto>
         \<lparr>openFails = False, writeFails = False,
          composerRow = Some \<lparr>composers = [exampleSession ''x1''], isNewFormat = True,
                               rawData = None\<rparr>\<rparr>)\<rparr>"

section \<open>Facts about the list helpers\<close>

lemma findIndex_None_iff: "findIndex P xs = None \<longleftrightarrow> (\<forall>x \<in> set xs. \<not> P x)"
  by (induction xs) (auto split: option.splits)

lemma findIndex_Some:
  "findIndex P xs = Some i \<Longrightarrow> i < length xs \<and> P (xs ! i) \<and> (\<forall>j<i. \<not> P (xs ! j))"
proof (induction xs arbitrary: i)
  case Nil
  then show ?case by simp
next
  case (Cons x xs)
  show ?case
  proof (cases "P x")
    case True
    with Cons.prems show ?thesis by simp
  next
    case False
    with Cons.prems obtain k where k: "findIndex P xs = Some k" "i = Suc k"
      by (auto split: option.splits)
    from Cons.IH[OF k(1)] False k(2) show ?thesis
      by (auto simp: nth_Cons split: nat.splits)
  qed
qed

lemma filterIndexNot_enumerate:
  "map snd (filter (\<lambda>(i, x). i \<noteq> k) (enumerate n xs)) =
     (if n \<le> k then take (k - n) xs @ drop (Suc (k - n)) xs else xs)"
proof (induction xs arbitrary: n)
  case Nil
  then show ?case by simp
next
  case (Cons x xs)
  show ?case
  proof (cases "n = k")
    case True
    then show ?thesis using Cons.IH[of "Suc k"] by simp
  next
    case False
    show ?thesis
    proof (cases "n < k")
      case True
      then have "k - n = Suc (k - Suc n)" by arith
      with True False show ?thesis using Cons.IH[of "Suc n"] by simp
    next
      case gt: False
      with False show ?thesis using Cons.IH[of "Suc n"] by simp
    qed
  qed
qed

lemma filterIndexNot_eq: "filterIndexNot k xs = take k xs @ drop (Suc k) xs"
  by (simp add: filterIndexNot_def filterIndexNot_enumerate)

section \<open>What a result of \<open>migrateSession\<close> says\<close>

lemma performMigration_result:
  "performMigration sid md srcPath nd sourceInfo destInfo w = (Inr r, w') \<Longrightarrow>
     success r \<and> sessionId r = sid \<and> sourceWorkspace r = srcPath \<and>
     destinationWorkspace r = nd \<and> mode r = md \<and> \<not> dryRun r \<and> error r = None"
  unfolding performMigration_def Let_def
  by (auto split: sum.splits option.splits migrationMode.splits prod.splits)

lemma migrateResolved_sessionId:
  "migrateResolved sid md dry srcPath nd sourceInfo destInfo w = (r, w') \<Longrightarrow> sessionId r = sid"
  unfolding migrateResolved_def
  by (auto split: if_splits prod.splits sum.splits dest: performMigration_result)

lemma migrateSession_sessionId:
  "migrateSession env sid dest md dry w = (Inr r, w') \<Longrightarrow> sessionId r = sid"
  unfolding migrateSession_def Let_def
  by (auto split: option.splits if_splits prod.splits dest: migrateResolved_sessionId)

section \<open>The batch: one result per identifier\<close>

lemma migrateSessionsLoop_acc:
  "migrateSessionsLoop env ids dest md dry acc w =
     (acc @ fst (migrateSessionsLoop env ids dest md dry [] w),
      snd (migrateSessionsLoop env ids dest md dry [] w))"
proof (induction ids arbitrary: acc w)
  case Nil
  show ?case by simp
next
  case (Cons sid rest)
  show ?case
  proof (cases "migrateSession env sid dest md dry w")
    case (Pair out w1)
    show ?thesis
    proof (cases out)
      case (Inl e)
      with Pair show ?thesis
        using Cons.IH[of "acc @ [x]" w1 for x] Cons.IH[of "[x]" w1 for x] by simp
    next
      case (Inr r)
      with Pair show ?thesis
        using Cons.IH[of "acc @ [r]" w1] Cons.IH[of "[r]" w1] by simp
    qed
  qed
qed

lemma migrateSessions_Nil: "migrateSessions env [] dest md dry w = ([], w)"
  by (simp add: migrateSessions_def)

lemma migrateSessions_Cons:
  "migrateSessions env (sid # rest) dest md dry w =
     (case migrateSession env sid dest md dry w of
        (Inr r, w1) \<Rightarrow>
          (r # fst (migrateSessions env rest dest md dry w1),
           snd (migrateSessions env rest dest md dry w1))
      | (Inl e, w1) \<Rightarrow>
          (\<lparr>success = False, sessionId = sid, sourceWorkspace = ''unknown'',
            destinationWorkspace = dest, mode = md, newSessionId = None,
            error = Some (message e), dryRun = dry\<rparr>
             # fst (migrateSessions env rest dest md dry w1),
           snd (migrateSessions env rest dest md dry w1)))"
  unfolding migrateSessions_def
  by (simp split: prod.splits sum.splits
        add: migrateSessionsLoop_acc[of env rest dest md dry "[x]" for x])

lemma migrateSessions_append:
  "migrateSessions env (xs @ ys) dest md dry w =
     (fst (migrateSessions env xs dest md dry w)
        @ fst (migrateSessions env ys dest md dry (snd (migrateSessions env xs dest md dry w))),
      snd (migrateSessions env ys dest md dry (snd (migrateSessions env xs dest md dry w))))"
proof (induction xs arbitrary: w)
  case Nil
  show ?case by (simp add: migrateSessions_Nil)
next
  case (Cons x xs)
  show ?case
    by (simp add: migrateSessions_Cons Cons.IH split: prod.splits sum.splits)
qed

lemma migrateSessions_ids:
  "map sessionId (fst (migrateSessions env ids dest md dry w)) = ids"
proof (induction ids arbitrary: w)
  case Nil
  show ?case by (simp add: migrateSessions_Nil)
next
  case (Cons x xs)
  show ?case
    by (auto simp: migrateSessions_Cons Cons.IH split: prod.splits sum.splits
          dest: migrateSession_sessionId)
qed

text \<open>
  Claim C4. \<open>migrateSessions\<close> returns one result per input identifier, in input order,
  the i-th carrying the i-th identifier. The i-th result is the outcome of
  \<open>migrateSession\<close> on the i-th identifier, run in the state the earlier identifiers left
  behind, whatever became of them: a returned result is pushed as it is, and a thrown
  error is pushed as a result with \<open>success = false\<close> and the error's message, never
  propagated.
\<close>

theorem migrateSessions_one_result_per_identifier:
  "length (fst (migrateSessions env ids dest md dry w)) = length ids \<and>
   map sessionId (fst (migrateSessions env ids dest md dry w)) = ids \<and>
   (\<forall>pre sid post. ids = pre @ sid # post \<longrightarrow>
      (case migrateSession env sid dest md dry (snd (migrateSessions env pre dest md dry w)) of
         (Inr r, w1) \<Rightarrow> fst (migrateSessions env ids dest md dry w) ! length pre = r
       | (Inl e, w1) \<Rightarrow>
           fst (migrateSessions env ids dest md dry w) ! length pre =
             \<lparr>success = False, sessionId = sid, sourceWorkspace = ''unknown'',
              destinationWorkspace = dest, mode = md, newSessionId = None,
              error = Some (message e), dryRun = dry\<rparr>))"
proof (intro conjI allI impI)
  show ids: "map sessionId (fst (migrateSessions env ids dest md dry w)) = ids"
    by (rule migrateSessions_ids)
  from arg_cong[OF ids, of length]
  show "length (fst (migrateSessions env ids dest md dry w)) = length ids" by simp
next
  fix pre sid post
  assume split: "ids = pre @ sid # post"
  have len: "length (fst (migrateSessions env pre dest md dry w)) = length pre"
    using arg_cong[OF migrateSessions_ids[of env pre dest md dry w], of length] by simp
  show "case migrateSession env sid dest md dry (snd (migrateSessions env pre dest md dry w)) of
         (Inr r, w1) \<Rightarrow> fst (migrateSessions env ids dest md dry w) ! length pre = r
       | (Inl e, w1) \<Rightarrow>
           fst (migrateSessions env ids dest md dry w) ! length pre =
             \<lparr>success = False, sessionId = sid, sourceWorkspace = ''unknown'',
              destinationWorkspace = dest, mode = md, newSessionId = None,
              error = Some (message e), dryRun = dry\<rparr>"
    unfolding split migrateSessions_append[of env pre "sid # post"]
    by (simp add: migrateSessions_Cons nth_append len split: prod.splits sum.splits)
qed

text \<open>The batch \<open>r1, zz, r2\<close> in the example: \<open>zz\<close> is in no store, its result is the
  failure in the middle, and \<open>r1\<close> and \<open>r2\<close> are moved all the same.\<close>

theorem migrateSessions_one_result_per_identifier_witness:
  "length (fst (migrateSessions exampleEnv [''r1'', ''zz'', ''r2''] ''/b'' Move False exampleWorld)) = 3 \<and>
   map sessionId (fst (migrateSessions exampleEnv [''r1'', ''zz'', ''r2''] ''/b'' Move False exampleWorld))
     = [''r1'', ''zz'', ''r2''] \<and>
   map success (fst (migrateSessions exampleEnv [''r1'', ''zz'', ''r2''] ''/b'' Move False exampleWorld))
     = [True, False, True] \<and>
   fst (migrateSessions exampleEnv [''r1'', ''zz'', ''r2''] ''/b'' Move False exampleWorld) ! 1 =
     \<lparr>success = False, sessionId = ''zz'', sourceWorkspace = ''unknown'',
      destinationWorkspace = ''/b'', mode = Move, newSessionId = None,
      error = Some (message (SessionNotFoundError ''zz'')), dryRun = False\<rparr>"
proof -
  let ?ids = "[''r1'', ''zz'', ''r2'']"
  let ?w1 = "snd (migrateSessions exampleEnv [''r1''] ''/b'' Move False exampleWorld)"
  note main = migrateSessions_one_result_per_identifier
                [of exampleEnv ?ids "''/b''" Move False exampleWorld]
  have thrown: "fst (migrateSession exampleEnv ''zz'' ''/b'' Move False ?w1)
                  = Inl (SessionNotFoundError ''zz'')"
    by code_simp
  have flags: "map success (fst (migrateSessions exampleEnv ?ids ''/b'' Move False exampleWorld))
                 = [True, False, True]"
    by code_simp
  from main have "case migrateSession exampleEnv ''zz'' ''/b'' Move False ?w1 of
         (Inr r, w1) \<Rightarrow> fst (migrateSessions exampleEnv ?ids ''/b'' Move False exampleWorld) ! length [''r1''] = r
       | (Inl e, w1) \<Rightarrow>
           fst (migrateSessions exampleEnv ?ids ''/b'' Move False exampleWorld) ! length [''r1''] =
             \<lparr>success = False, sessionId = ''zz'', sourceWorkspace = ''unknown'',
              destinationWorkspace = ''/b'', mode = Move, newSessionId = None,
              error = Some (message e), dryRun = False\<rparr>"
    by (elim conjE allE[of _ "[''r1'']"] allE[of _ "''zz''"] allE[of _ "[''r2'']"]) simp
  with thrown have middle:
    "fst (migrateSessions exampleEnv ?ids ''/b'' Move False exampleWorld) ! 1 =
       \<lparr>success = False, sessionId = ''zz'', sourceWorkspace = ''unknown'',
        destinationWorkspace = ''/b'', mode = Move, newSessionId = None,
        error = Some (message (SessionNotFoundError ''zz'')), dryRun = False\<rparr>"
    by (cases "migrateSession exampleEnv ''zz'' ''/b'' Move False ?w1") simp
  from main flags middle show ?thesis by simp
qed

section \<open>Dry runs\<close>

lemma migrateSession_dry:
  "migrateSession env sid dest md True w =
     (case findWorkspaceForSession sid w of
        None \<Rightarrow> (Inl (SessionNotFoundError sid), w)
      | Some sourceInfo \<Rightarrow>
          if pathsEqual env (ws_path sourceInfo) (normalizePath env dest)
          then (Inl (SameWorkspaceError (normalizePath env dest)), w)
          else (case findWorkspaceByPath env (normalizePath env dest) w of
                  None \<Rightarrow> (Inl (WorkspaceNotFoundError (normalizePath env dest)), w)
                | Some destInfo \<Rightarrow>
                    (Inr \<lparr>success = True, sessionId = sid, sourceWorkspace = ws_path sourceInfo,
                          destinationWorkspace = normalizePath env dest, mode = md,
                          newSessionId = None, error = None, dryRun = True\<rparr>, w)))"
  unfolding migrateSession_def migrateResolved_def Let_def
  by (simp split: option.splits)

lemma migrateSession_dry_world: "snd (migrateSession env sid dest md True w) = w"
  by (simp add: migrateSession_dry split: option.splits)

lemma migrateSessions_dry:
  "migrateSessions env ids dest md True w =
     (map (\<lambda>sid. case fst (migrateSession env sid dest md True w) of
        Inr r \<Rightarrow> r
      | Inl e \<Rightarrow> \<lparr>success = False, sessionId = sid, sourceWorkspace = ''unknown'',
                  destinationWorkspace = dest, mode = md, newSessionId = None,
                  error = Some (message e), dryRun = True\<rparr>) ids, w)"
proof (induction ids)
  case Nil
  show ?case by (simp add: migrateSessions_Nil)
next
  case (Cons sid rest)
  obtain out w1 where run: "migrateSession env sid dest md True w = (out, w1)"
    by (cases "migrateSession env sid dest md True w")
  with migrateSession_dry_world[of env sid dest md w] have w1: "w1 = w" by simp
  show ?case
    by (cases out) (simp_all add: migrateSessions_Cons run w1 Cons.IH)
qed

lemma migrateWorkspace_dry_world: "snd (migrateWorkspace env src dest md True force w) = w"
  unfolding migrateWorkspace_def Let_def
  by (simp add: migrateSessions_dry split: option.splits sum.splits)

lemma migrateWorkspace_Inr:
  assumes "migrateWorkspace env src dest md dry force w = (Inr a, w')"
  shows "\<exists>ids rs. migrateSessions env ids (normalizePath env dest) md dry w = (rs, w') \<and>
           a = \<lparr>agg_success = (length (filter (\<lambda>r. \<not> success r) rs) = 0),
                 agg_source = normalizePath env src, agg_destination = normalizePath env dest,
                 agg_mode = md, totalSessions = length rs,
                 successCount = length (filter (\<lambda>r. success r) rs),
                 failureCount = length (filter (\<lambda>r. \<not> success r) rs),
                 results = rs, agg_dryRun = dry\<rparr>"
  using assms unfolding migrateWorkspace_def Let_def
  by (auto split: option.splits sum.splits if_splits prod.splits)


text \<open>
  Claim C3. With \<open>dryRun = true\<close> the three entry points leave the whole state as it was
  (every store, the global store included). A \<open>migrateSession\<close> that passes resolution
  and validation returns \<open>success = true, dryRun = true\<close> with the path of the located
  source and the normalized destination path. The batch's results are the previews of
  its identifiers, each taken in that unchanged state (one that fails resolution or
  validation is a failure result with \<open>dryRun = true\<close>); \<open>migrateWorkspace\<close> returns
  \<open>dryRun = true\<close> with the normalized source and destination paths, and succeeds
  exactly when every one of its sessions passes.
\<close>

theorem dry_run_is_a_no_op:
  "snd (migrateSession env sid dest md True w) = w \<and>
   snd (migrateSessions env ids dest md True w) = w \<and>
   snd (migrateWorkspace env src dest md True force w) = w \<and>
   (\<forall>r. fst (migrateSession env sid dest md True w) = Inr r \<longrightarrow>
      (\<exists>sourceInfo. findWorkspaceForSession sid w = Some sourceInfo \<and>
         r = \<lparr>success = True, sessionId = sid, sourceWorkspace = ws_path sourceInfo,
              destinationWorkspace = normalizePath env dest, mode = md,
              newSessionId = None, error = None, dryRun = True\<rparr>)) \<and>
   fst (migrateSessions env ids dest md True w) =
     map (\<lambda>sid. case fst (migrateSession env sid dest md True w) of
            Inr r \<Rightarrow> r
          | Inl e \<Rightarrow> \<lparr>success = False, sessionId = sid, sourceWorkspace = ''unknown'',
                      destinationWorkspace = dest, mode = md, newSessionId = None,
                      error = Some (message e), dryRun = True\<rparr>) ids \<and>
   (\<forall>a. fst (migrateWorkspace env src dest md True force w) = Inr a \<longrightarrow>
      agg_dryRun a \<and> agg_source a = normalizePath env src \<and>
      agg_destination a = normalizePath env dest \<and>
      results a = fst (migrateSessions env (map sessionId (results a)) (normalizePath env dest) md True w) \<and>
      (agg_success a \<longleftrightarrow> (\<forall>r \<in> set (results a). success r)))"
proof (intro conjI allI impI)
  show "snd (migrateSession env sid dest md True w) = w"
    by (rule migrateSession_dry_world)
  show "snd (migrateSessions env ids dest md True w) = w"
    by (simp add: migrateSessions_dry)
  show "snd (migrateWorkspace env src dest md True force w) = w"
    by (rule migrateWorkspace_dry_world)
  show "fst (migrateSessions env ids dest md True w) =
     map (\<lambda>sid. case fst (migrateSession env sid dest md True w) of
            Inr r \<Rightarrow> r
          | Inl e \<Rightarrow> \<lparr>success = False, sessionId = sid, sourceWorkspace = ''unknown'',
                      destinationWorkspace = dest, mode = md, newSessionId = None,
                      error = Some (message e), dryRun = True\<rparr>) ids"
    by (simp add: migrateSessions_dry)
next
  fix r
  assume "fst (migrateSession env sid dest md True w) = Inr r"
  then show "\<exists>sourceInfo. findWorkspaceForSession sid w = Some sourceInfo \<and>
         r = \<lparr>success = True, sessionId = sid, sourceWorkspace = ws_path sourceInfo,
              destinationWorkspace = normalizePath env dest, mode = md,
              newSessionId = None, error = None, dryRun = True\<rparr>"
    by (auto simp: migrateSession_dry split: option.splits if_splits)
next
  fix a
  assume run: "fst (migrateWorkspace env src dest md True force w) = Inr a"
  let ?nd = "normalizePath env dest"
  from run obtain w' where run': "migrateWorkspace env src dest md True force w = (Inr a, w')"
    by (cases "migrateWorkspace env src dest md True force w") simp
  from migrateWorkspace_Inr[OF run'] obtain ids rs where
    rs: "migrateSessions env ids ?nd md True w = (rs, w')" and
    a: "a = \<lparr>agg_success = (length (filter (\<lambda>r. \<not> success r) rs) = 0),
          agg_source = normalizePath env src, agg_destination = ?nd, agg_mode = md,
          totalSessions = length rs,
          successCount = length (filter (\<lambda>r. success r) rs),
          failureCount = length (filter (\<lambda>r. \<not> success r) rs),
          results = rs, agg_dryRun = True\<rparr>"
    by blast
  have ids: "map sessionId (results a) = ids"
    using migrateSessions_ids[of env ids ?nd md True w] by (simp add: a rs)
  show "agg_dryRun a" by (simp add: a)
  show "agg_source a = normalizePath env src" by (simp add: a)
  show "agg_destination a = ?nd" by (simp add: a)
  show "results a = fst (migrateSessions env (map sessionId (results a)) ?nd md True w)"
    unfolding ids by (simp add: a rs)
  show "agg_success a \<longleftrightarrow> (\<forall>r \<in> set (results a). success r)"
    by (simp add: a filter_empty_conv)
qed

text \<open>In the example, a dry-run copy of \<open>r1\<close> to \<open>/b/\<close>, alone, in a batch with an unknown
  identifier, and as part of the workspace \<open>/a\<close>.\<close>

theorem dry_run_is_a_no_op_witness:
  "snd (migrateSession exampleEnv ''r1'' ''/b/'' Copy True exampleWorld) = exampleWorld \<and>
   snd (migrateSessions exampleEnv [''r1'', ''zz''] ''/b/'' Copy True exampleWorld) = exampleWorld \<and>
   snd (migrateWorkspace exampleEnv ''/a'' ''/b/'' Copy True False exampleWorld) = exampleWorld \<and>
   (\<exists>sourceInfo. findWorkspaceForSession ''r1'' exampleWorld = Some sourceInfo \<and>
      \<lparr>success = True, sessionId = ''r1'', sourceWorkspace = ''/a'',
       destinationWorkspace = ''/b'', mode = Copy, newSessionId = None, error = None,
       dryRun = True\<rparr> =
      \<lparr>success = True, sessionId = ''r1'', sourceWorkspace = ws_path sourceInfo,
       destinationWorkspace = normalizePath exampleEnv ''/b/'', mode = Copy,
       newSessionId = None, error = None, dryRun = True\<rparr>) \<and>
   map success (fst (migrateSessions exampleEnv [''r1'', ''zz''] ''/b/'' Copy True exampleWorld))
     = [True, False]"
proof -
  note main = dry_run_is_a_no_op
                [of exampleEnv "''r1''" "''/b/''" Copy exampleWorld "[''r1'', ''zz'']" "''/a''" False]
  have preview: "fst (migrateSession exampleEnv ''r1'' ''/b/'' Copy True exampleWorld) =
      Inr \<lparr>success = True, sessionId = ''r1'', sourceWorkspace = ''/a'',
           destinationWorkspace = ''/b'', mode = Copy, newSessionId = None, error = None,
           dryRun = True\<rparr>"
    by code_simp
  have flags:
    "map success (fst (migrateSessions exampleEnv [''r1'', ''zz''] ''/b/'' Copy True exampleWorld))
       = [True, False]"
    by code_simp
  from main preview flags show ?thesis by blast
qed


section \<open>A record that is gone when the arrays are read\<close>

text \<open>
  Claim C6, as amended. Resolution found the record (in the state \<open>w0\<close> it read). When
  the mutation phase then reads the source array (in the state \<open>w\<close> of that moment, both
  stores open) and the record is not in it, \<open>migrateSession\<close> throws nothing and writes
  nothing: it returns a failure result with the resolved paths, and the error text of
  the result is the message of \<open>SessionNotFoundError\<close> for the identifier.
\<close>

theorem absent_at_mutation_is_a_failed_result:
  assumes "findWorkspaceForSession sid w0 = Some sourceInfo"
      and "openDatabaseReadWrite w (dbPath sourceInfo) = Inr sourceDb"
      and "openDatabaseReadWrite w (dbPath destInfo) = Inr destDb"
      and "getComposerData w sourceDb = Some sr"
      and "findIndex (\<lambda>s. composerId s = Some (JStr sid)) (composers sr) = None"
  shows "migrateResolved sid md False (ws_path sourceInfo) nd sourceInfo destInfo w =
           (\<lparr>success = False, sessionId = sid, sourceWorkspace = ws_path sourceInfo,
             destinationWorkspace = nd, mode = md, newSessionId = None,
             error = Some (message (SessionNotFoundError sid)), dryRun = False\<rparr>, w)"
  using assms(2-5) unfolding migrateResolved_def performMigration_def Let_def
  by simp


text \<open>The example: \<open>r1\<close> is found in \<open>/a\<close>, and is gone when the arrays are read.\<close>

theorem absent_at_mutation_is_a_failed_result_witness:
  "migrateResolved ''r1'' Move False ''/a'' ''/b''
       \<lparr>ws_id = ''1'', ws_path = ''/a'', dbPath = ''da''\<rparr>
       \<lparr>ws_id = ''2'', ws_path = ''/b'', dbPath = ''db''\<rparr> exampleWorldRaced =
     (\<lparr>success = False, sessionId = ''r1'', sourceWorkspace = ''/a'',
       destinationWorkspace = ''/b'', mode = Move, newSessionId = None,
       error = Some (message (SessionNotFoundError ''r1'')), dryRun = False\<rparr>, exampleWorldRaced)"
proof -
  let ?A = "\<lparr>ws_id = ''1'', ws_path = ''/a'', dbPath = ''da''\<rparr>"
  let ?B = "\<lparr>ws_id = ''2'', ws_path = ''/b'', dbPath = ''db''\<rparr>"
  have h1: "findWorkspaceForSession ''r1'' exampleWorld = Some ?A" by code_simp
  have h2: "openDatabaseReadWrite exampleWorldRaced (dbPath ?A) = Inr ''da''" by code_simp
  have h3: "openDatabaseReadWrite exampleWorldRaced (dbPath ?B) = Inr ''db''" by code_simp
  have h4: "getComposerData exampleWorldRaced ''da'' =
              Some \<lparr>composers = [exampleSession ''r2''], isNewFormat = True, rawData = None\<rparr>"
    by code_simp
  have h5: "findIndex (\<lambda>s. composerId s = Some (JStr ''r1''))
              (composers \<lparr>composers = [exampleSession ''r2''], isNewFormat = True, rawData = None\<rparr>) = None"
    by code_simp
  from absent_at_mutation_is_a_failed_result[OF h1 h2 h3 h4 h5, of Move "''/b''"]
  show ?thesis by simp
qed


text \<open>Claim C6 as stated says the error reported is not the one of a record that was
  not found. In the example it is that error's text.\<close>

theorem absent_at_mutation_reports_session_not_found:
  "error (fst (migrateResolved ''r1'' Move False ''/a'' ''/b''
       \<lparr>ws_id = ''1'', ws_path = ''/a'', dbPath = ''da''\<rparr>
       \<lparr>ws_id = ''2'', ws_path = ''/b'', dbPath = ''db''\<rparr> exampleWorldRaced))
     = Some ''Session not found: r1. Use 'cursor-history list' to see available sessions.''"
  by code_simp

section \<open>The identifiers a workspace migration takes\<close>

lemma stringIds_set:
  "set (stringIds (map composerId cs)) = {i. \<exists>s \<in> set cs. composerId s = Some (JStr i)}"
proof (induction cs)
  case Nil
  show ?case by simp
next
  case (Cons c cs)
  show ?case
  proof (cases "composerId c")
    case None
    with Cons show ?thesis by auto
  next
    case (Some j)
    with Cons show ?thesis by (cases j) auto
  qed
qed


text \<open>
  Claim C10. Past the checks that come first (the paths differ, both stores are found,
  the source store opens and its array is not empty, the destination guard lets the
  request through), \<open>migrateWorkspace\<close> hands to the batch exactly the identifiers of the
  source array that are strings, in array order: a record whose \<open>composerId\<close> is missing
  or is not a string is left out. When no record has a string identifier it throws
  \<open>NoSessionsFoundError\<close> and the state is as it was.
\<close>

theorem migrateWorkspace_takes_string_identifiers_only:
  assumes "\<not> pathsEqual env (normalizePath env src) (normalizePath env dest)"
      and "findWorkspaceByPath env (normalizePath env src) w = Some sourceInfo"
      and "findWorkspaceByPath env (normalizePath env dest) w = Some destInfo"
      and "openDatabaseReadWrite w (dbPath sourceInfo) = Inr sourceDb"
      and "getComposerData w sourceDb = Some sr"
      and "composers sr \<noteq> []"
      and "destinationGuard force (normalizePath env dest) destInfo w = None"
  shows "set (stringIds (map composerId (composers sr)))
           = {i. \<exists>s \<in> set (composers sr). composerId s = Some (JStr i)} \<and>
         (if \<exists>s \<in> set (composers sr). \<exists>i. composerId s = Some (JStr i)
          then \<exists>a. fst (migrateWorkspace env src dest md dry force w) = Inr a \<and>
                   map sessionId (results a) = stringIds (map composerId (composers sr)) \<and>
                   totalSessions a = length (stringIds (map composerId (composers sr)))
          else migrateWorkspace env src dest md dry force w
                 = (Inl (NoSessionsFoundError (normalizePath env src)), w))"
proof -
  let ?ids = "stringIds (map composerId (composers sr))"
  have ids: "set ?ids = {i. \<exists>s \<in> set (composers sr). composerId s = Some (JStr i)}"
    by (rule stringIds_set)
  have empty: "?ids = [] \<longleftrightarrow> \<not> (\<exists>s \<in> set (composers sr). \<exists>i. composerId s = Some (JStr i))"
    unfolding set_empty[symmetric] ids by auto
  have run: "migrateWorkspace env src dest md dry force w =
      (if length ?ids = 0 then (Inl (NoSessionsFoundError (normalizePath env src)), w)
       else (let (rs, w') = migrateSessions env ?ids (normalizePath env dest) md dry w;
                nSuccess = length (filter (\<lambda>r. success r) rs);
                nFailure = length (filter (\<lambda>r. \<not> success r) rs)
            in (Inr \<lparr>agg_success = (nFailure = 0), agg_source = normalizePath env src,
                      agg_destination = normalizePath env dest, agg_mode = md,
                      totalSessions = length rs, successCount = nSuccess,
                      failureCount = nFailure, results = rs, agg_dryRun = dry\<rparr>, w')))"
    using assms unfolding migrateWorkspace_def Let_def by simp
  show ?thesis
  proof (cases "?ids = []")
    case True
    with run empty ids show ?thesis by simp
  next
    case False
    obtain rs w' where rs: "migrateSessions env ?ids (normalizePath env dest) md dry w = (rs, w')"
      by (cases "migrateSessions env ?ids (normalizePath env dest) md dry w")
    have "map sessionId rs = ?ids"
      using migrateSessions_ids[of env ?ids "normalizePath env dest" md dry w] rs by simp
    moreover from this have "length rs = length ?ids"
      by (metis length_map)
    ultimately show ?thesis using False run empty ids rs by (simp add: Let_def)
  qed
qed

text \<open>The example with only the two identifier-less records in \<open>/a\<close>, and with \<open>r1\<close> before
  them.\<close>

theorem migrateWorkspace_takes_string_identifiers_only_witness:
  "migrateWorkspace exampleEnv ''/a'' ''/b'' Move False False (exampleWorldAnonymous [])
     = (Inl (NoSessionsFoundError ''/a''), exampleWorldAnonymous []) \<and>
   (\<exists>a. fst (migrateWorkspace exampleEnv ''/a'' ''/b'' Move False False
              (exampleWorldAnonymous [exampleSession ''r1''])) = Inr a \<and>
        map sessionId (results a) = [''r1''] \<and> totalSessions a = 1)"
proof -
  let ?A = "\<lparr>ws_id = ''1'', ws_path = ''/a'', dbPath = ''da''\<rparr>"
  let ?B = "\<lparr>ws_id = ''2'', ws_path = ''/b'', dbPath = ''db''\<rparr>"
  let ?sr = "\<lambda>extra. \<lparr>composers = extra @ [[(''name'', JStr ''untitled'')], [(''composerId'', JNum 7)]],
                       isNewFormat = True, rawData = None\<rparr>"
  have h1: "\<not> pathsEqual exampleEnv (normalizePath exampleEnv ''/a'') (normalizePath exampleEnv ''/b'')"
    by code_simp
  have h2: "findWorkspaceByPath exampleEnv (normalizePath exampleEnv ''/a'') (exampleWorldAnonymous extra) = Some ?A"
    for extra by code_simp
  have h3: "findWorkspaceByPath exampleEnv (normalizePath exampleEnv ''/b'') (exampleWorldAnonymous extra) = Some ?B"
    for extra by code_simp
  have h4: "openDatabaseReadWrite (exampleWorldAnonymous extra) (dbPath ?A) = Inr ''da''"
    for extra by code_simp
  have h5: "getComposerData (exampleWorldAnonymous extra) ''da'' = Some (?sr extra)"
    for extra by code_simp
  have h6: "composers (?sr extra) \<noteq> []" for extra by simp
  have h7: "destinationGuard False (normalizePath exampleEnv ''/b'') ?B (exampleWorldAnonymous extra) = None"
    for extra by code_simp
  have none: "\<not> (\<exists>s \<in> set (composers (?sr [])). \<exists>i. composerId s = Some (JStr i))"
    by (simp add: composerId_def)
  have some: "\<exists>s \<in> set (composers (?sr [exampleSession ''r1''])). \<exists>i. composerId s = Some (JStr i)"
    by (simp add: composerId_def exampleSession_def)
  have ids: "stringIds (map composerId (composers (?sr [exampleSession ''r1'']))) = [''r1'']"
    by code_simp
  from migrateWorkspace_takes_string_identifiers_only
         [OF h1 h2 h3 h4 h5 h6 h7, of "[]" Move False] none
  have first: "migrateWorkspace exampleEnv ''/a'' ''/b'' Move False False (exampleWorldAnonymous [])
     = (Inl (NoSessionsFoundError ''/a''), exampleWorldAnonymous [])"
    by (simp add: normalizePath_def stripTrailing.simps)
  from migrateWorkspace_takes_string_identifiers_only
         [OF h1 h2 h3 h4 h5 h6 h7, of "[exampleSession ''r1'']" Move False] some
  have second: "\<exists>a. fst (migrateWorkspace exampleEnv ''/a'' ''/b'' Move False False
              (exampleWorldAnonymous [exampleSession ''r1''])) = Inr a \<and>
        map sessionId (results a) = [''r1''] \<and> totalSessions a = 1"
    unfolding ids by simp
  from first second show ?thesis by simp
qed

section \<open>Writes to a store's array\<close>

lemma updateComposerData_usable:
  assumes "storeUsable w p"
  shows "\<exists>db. dbs w p = Some db \<and>
           updateComposerData p cs f raw w =
             Inr (w\<lparr>dbs := (dbs w)(p \<mapsto>
               db\<lparr>composerRow := Some \<lparr>composers = cs, isNewFormat = f, rawData = raw\<rparr>\<rparr>)\<rparr>)"
  using assms unfolding storeUsable_def updateComposerData_def
  by (auto split: option.splits)

lemma updateComposerData_Inr:
  assumes "updateComposerData p cs f raw w = Inr w'"
  shows "\<exists>db. dbs w p = Some db \<and>
           w' = w\<lparr>dbs := (dbs w)(p \<mapsto>
               db\<lparr>composerRow := Some \<lparr>composers = cs, isNewFormat = f, rawData = raw\<rparr>\<rparr>)\<rparr>"
  using assms unfolding updateComposerData_def
  by (auto split: option.splits if_splits)

lemma arrayOf_update_same:
  "arrayOf (w\<lparr>dbs := (dbs w)(p \<mapsto> db\<lparr>composerRow := Some r\<rparr>)\<rparr>) p = composers r"
  by (simp add: arrayOf_def getComposerData_def)

lemma arrayOf_update_other:
  "q \<noteq> p \<Longrightarrow> arrayOf (w\<lparr>dbs := (dbs w)(p \<mapsto> db)\<rparr>) q = arrayOf w q"
  by (simp add: arrayOf_def getComposerData_def)

lemma storeUsable_update:
  "dbs w p = Some db \<Longrightarrow>
   storeUsable (w\<lparr>dbs := (dbs w)(p \<mapsto> db\<lparr>composerRow := r\<rparr>)\<rparr>) q = storeUsable w q"
  by (simp add: storeUsable_def)

lemma openDatabaseReadWrite_usable: "storeUsable w p \<Longrightarrow> openDatabaseReadWrite w p = Inr p"
  by (auto simp: storeUsable_def openDatabaseReadWrite_def split: option.splits)

lemma holdsSession_iff:
  "holdsSession w p sid \<longleftrightarrow> (\<exists>s \<in> set (arrayOf w p). composerId s = Some (JStr sid))"
proof (cases "getComposerData w p")
  case None
  then show ?thesis by (simp add: holdsSession_def arrayOf_def)
next
  case (Some r)
  then show ?thesis by (simp add: holdsSession_def arrayOf_def findIndex_None_iff)
qed

lemma holdsSession_findIndex:
  "holdsSession w p sid \<Longrightarrow>
     \<exists>sr i. getComposerData w p = Some sr \<and>
            findIndex (\<lambda>s. composerId s = Some (JStr sid)) (composers sr) = Some i"
  by (cases "getComposerData w p") (simp_all add: holdsSession_def)

lemma find_SomeD: "find P xs = Some x \<Longrightarrow> x \<in> set xs \<and> P x"
  by (induction xs) (simp_all split: if_splits)

lemma find_unique:
  "x \<in> set xs \<Longrightarrow> P x \<Longrightarrow> (\<forall>y \<in> set xs. P y \<longrightarrow> y = x) \<Longrightarrow> find P xs = Some x"
proof (induction xs)
  case Nil
  then show ?case by simp
next
  case (Cons a xs)
  have all: "y = x" if "y \<in> set (a # xs)" "P y" for y
    by (rule mp[OF bspec[OF Cons.prems(3) that(1)] that(2)])
  show ?case
  proof (cases "P a")
    case True
    have "a = x" by (rule all[OF _ True]) simp
    with True show ?thesis by simp
  next
    case False
    with Cons.prems(1,2) have mem: "x \<in> set xs" by (cases "x = a") simp_all
    have "\<forall>y \<in> set xs. P y \<longrightarrow> y = x"
    proof (intro ballI impI)
      fix y assume "y \<in> set xs" "P y"
      then show "y = x" by (intro all) simp_all
    qed
    from Cons.IH[OF mem Cons.prems(2) this] False show ?thesis by simp
  qed
qed

lemma distinct_dbPath:
  assumes "distinct (map dbPath wss)" "a \<in> set wss" "b \<in> set wss" "dbPath a = dbPath b"
  shows "a = b"
proof -
  from assms(1) have "inj_on dbPath (set wss)" by (simp add: distinct_map)
  from inj_onD[OF this assms(4) assms(2) assms(3)] show ?thesis .
qed

text \<open>Removing the first match of a list that has exactly one match leaves none.\<close>

lemma filterIndexNot_length:
  "i < length xs \<Longrightarrow> length (filterIndexNot i xs) + 1 = length xs"
  by (simp add: filterIndexNot_eq)

lemma filter_take_findIndex:
  "findIndex P xs = Some i \<Longrightarrow> filter P (take i xs) = []"
  by (auto simp: filter_empty_conv in_set_conv_nth dest!: findIndex_Some)

lemma filter_removed_first:
  assumes "findIndex P xs = Some i"
  shows "length (filter P (filterIndexNot i xs)) + 1 = length (filter P xs)"
proof -
  from findIndex_Some[OF assms] have i: "i < length xs" "P (xs ! i)" by simp_all
  have split: "xs = take i xs @ xs ! i # drop (Suc i) xs"
    using i(1) by (simp add: id_take_nth_drop)
  have "length (filter P xs) = length (filter P (take i xs @ xs ! i # drop (Suc i) xs))"
    using split by simp
  also have "\<dots> = length (filter P (drop (Suc i) xs)) + 1"
    using filter_take_findIndex[OF assms] i(2) by simp
  finally show ?thesis
    using filter_take_findIndex[OF assms] by (simp add: filterIndexNot_eq)
qed

section \<open>Moving a session\<close>

lemma performMigration_move:
  assumes ua: "storeUsable w (dbPath A)" and ub: "storeUsable w (dbPath B)"
      and ne: "dbPath A \<noteq> dbPath B"
      and sr: "getComposerData w (dbPath A) = Some sr"
      and ix: "findIndex (\<lambda>s. composerId s = Some (JStr sid)) (composers sr) = Some i"
  shows "\<exists>w'. performMigration sid Move srcPath nd A B w =
           (Inr \<lparr>success = True, sessionId = sid, sourceWorkspace = srcPath,
                 destinationWorkspace = nd, mode = Move, newSessionId = None,
                 error = None, dryRun = False\<rparr>, w') \<and>
           workspaces w' = workspaces w \<and>
           arrayOf w' (dbPath A) = filterIndexNot i (arrayOf w (dbPath A)) \<and>
           arrayOf w' (dbPath B) = arrayOf w (dbPath B) @ [arrayOf w (dbPath A) ! i] \<and>
           (\<forall>q. q \<noteq> dbPath A \<longrightarrow> q \<noteq> dbPath B \<longrightarrow> dbs w' q = dbs w q) \<and>
           (\<forall>q. storeUsable w' q = storeUsable w q) \<and>
           globalDb w' = globalDb w \<and> randomCalls w' = randomCalls w \<and>
           randomSource w' = randomSource w"
proof -
  let ?a = "dbPath A" and ?b = "dbPath B"
  let ?dest = "getComposerData w ?b"
  let ?dc = "case ?dest of None \<Rightarrow> [] | Some dr \<Rightarrow> composers dr"
  let ?df = "case ?dest of None \<Rightarrow> isNewFormat sr | Some dr \<Rightarrow> isNewFormat dr"
  let ?dr = "case ?dest of None \<Rightarrow> None | Some dr \<Rightarrow> rawData dr"
  from updateComposerData_usable[OF ua, of "filterIndexNot i (composers sr)" "isNewFormat sr" "rawData sr"]
  obtain da where da: "dbs w ?a = Some da" and
    w1: "updateComposerData ?a (filterIndexNot i (composers sr)) (isNewFormat sr) (rawData sr) w =
           Inr (w\<lparr>dbs := (dbs w)(?a \<mapsto> da\<lparr>composerRow :=
              Some \<lparr>composers = filterIndexNot i (composers sr), isNewFormat = isNewFormat sr,
                    rawData = rawData sr\<rparr>\<rparr>)\<rparr>)"
    by blast
  let ?w1 = "w\<lparr>dbs := (dbs w)(?a \<mapsto> da\<lparr>composerRow :=
              Some \<lparr>composers = filterIndexNot i (composers sr), isNewFormat = isNewFormat sr,
                    rawData = rawData sr\<rparr>\<rparr>)\<rparr>"
  have ub1: "storeUsable ?w1 ?b"
    using ub da ne by (simp add: storeUsable_def)
  from updateComposerData_usable[OF ub1, of "?dc @ [composers sr ! i]" ?df ?dr]
  obtain db where db: "dbs ?w1 ?b = Some db" and
    w2: "updateComposerData ?b (?dc @ [composers sr ! i]) ?df ?dr ?w1 =
           Inr (?w1\<lparr>dbs := (dbs ?w1)(?b \<mapsto> db\<lparr>composerRow :=
              Some \<lparr>composers = ?dc @ [composers sr ! i], isNewFormat = ?df, rawData = ?dr\<rparr>\<rparr>)\<rparr>)"
    by blast
  let ?w2 = "?w1\<lparr>dbs := (dbs ?w1)(?b \<mapsto> db\<lparr>composerRow :=
              Some \<lparr>composers = ?dc @ [composers sr ! i], isNewFormat = ?df, rawData = ?dr\<rparr>\<rparr>)\<rparr>"
  have db0: "dbs w ?b = Some db" using db ne by simp
  have run: "performMigration sid Move srcPath nd A B w =
           (Inr \<lparr>success = True, sessionId = sid, sourceWorkspace = srcPath,
                 destinationWorkspace = nd, mode = Move, newSessionId = None,
                 error = None, dryRun = False\<rparr>, ?w2)"
    unfolding performMigration_def
    by (simp add: openDatabaseReadWrite_usable[OF ua] openDatabaseReadWrite_usable[OF ub]
          sr ix w1 w2 Let_def del: fun_upd_apply)
  have srcArr: "arrayOf w ?a = composers sr" by (simp add: arrayOf_def sr)
  have dstArr: "arrayOf w ?b = ?dc" by (simp add: arrayOf_def)
  have a2: "arrayOf ?w2 ?a = filterIndexNot i (arrayOf w ?a)"
    using ne by (simp add: arrayOf_def getComposerData_def srcArr[unfolded arrayOf_def getComposerData_def])
  have b2: "arrayOf ?w2 ?b = arrayOf w ?b @ [arrayOf w ?a ! i]"
    unfolding srcArr dstArr by (simp add: arrayOf_def getComposerData_def)
  have usable: "storeUsable ?w2 q = storeUsable w q" for q
    using da db0 by (simp add: storeUsable_def)
  have others: "q \<noteq> ?a \<Longrightarrow> q \<noteq> ?b \<Longrightarrow> dbs ?w2 q = dbs w q" for q by simp
  show ?thesis
    apply (rule exI[of _ ?w2])
    apply (intro conjI allI impI)
            apply (rule run)
           apply simp
          apply (rule a2)
         apply (rule b2)
        apply (erule (1) others)
       apply (rule usable)
      apply simp_all
    done
qed

lemma migrateSession_move:
  assumes wf: "distinct (map dbPath (workspaces w))"
      and src: "findWorkspaceForSession sid w = Some A"
      and dst: "findWorkspaceByPath env (normalizePath env dest) w = Some B"
      and differ: "\<not> pathsEqual env (ws_path A) (normalizePath env dest)"
      and ua: "storeUsable w (dbPath A)" and ub: "storeUsable w (dbPath B)"
  shows "\<exists>w' i. migrateSession env sid dest Move False w =
           (Inr \<lparr>success = True, sessionId = sid, sourceWorkspace = ws_path A,
                 destinationWorkspace = normalizePath env dest, mode = Move,
                 newSessionId = None, error = None, dryRun = False\<rparr>, w') \<and>
           findIndex (\<lambda>s. composerId s = Some (JStr sid)) (arrayOf w (dbPath A)) = Some i \<and>
           dbPath A \<noteq> dbPath B \<and>
           workspaces w' = workspaces w \<and>
           arrayOf w' (dbPath A) = filterIndexNot i (arrayOf w (dbPath A)) \<and>
           arrayOf w' (dbPath B) = arrayOf w (dbPath B) @ [arrayOf w (dbPath A) ! i] \<and>
           (\<forall>q. q \<noteq> dbPath A \<longrightarrow> q \<noteq> dbPath B \<longrightarrow> dbs w' q = dbs w q) \<and>
           (\<forall>q. storeUsable w' q = storeUsable w q) \<and>
           globalDb w' = globalDb w \<and> randomCalls w' = randomCalls w \<and>
           randomSource w' = randomSource w"
proof -
  from find_SomeD[OF src[unfolded findWorkspaceForSession_def]]
  have A: "A \<in> set (workspaces w)" and holds: "holdsSession w (dbPath A) sid" by simp_all
  from find_SomeD[OF dst[unfolded findWorkspaceByPath_def]]
  have B: "B \<in> set (workspaces w)" and eqB: "pathsEqual env (ws_path B) (normalizePath env dest)"
    by simp_all
  from differ eqB have "A \<noteq> B" by auto
  with distinct_dbPath[OF wf A B] have ne: "dbPath A \<noteq> dbPath B" by blast
  from holdsSession_findIndex[OF holds] obtain sr i where
    sr: "getComposerData w (dbPath A) = Some sr" and
    ix: "findIndex (\<lambda>s. composerId s = Some (JStr sid)) (composers sr) = Some i"
    by blast
  have arr: "arrayOf w (dbPath A) = composers sr" by (simp add: arrayOf_def sr)
  from performMigration_move[OF ua ub ne sr ix, of "ws_path A" "normalizePath env dest"]
  obtain w' where
    run: "performMigration sid Move (ws_path A) (normalizePath env dest) A B w =
           (Inr \<lparr>success = True, sessionId = sid, sourceWorkspace = ws_path A,
                 destinationWorkspace = normalizePath env dest, mode = Move, newSessionId = None,
                 error = None, dryRun = False\<rparr>, w')" and
    rest: "workspaces w' = workspaces w \<and>
           arrayOf w' (dbPath A) = filterIndexNot i (arrayOf w (dbPath A)) \<and>
           arrayOf w' (dbPath B) = arrayOf w (dbPath B) @ [arrayOf w (dbPath A) ! i] \<and>
           (\<forall>q. q \<noteq> dbPath A \<longrightarrow> q \<noteq> dbPath B \<longrightarrow> dbs w' q = dbs w q) \<and>
           (\<forall>q. storeUsable w' q = storeUsable w q) \<and>
           globalDb w' = globalDb w \<and> randomCalls w' = randomCalls w \<and>
           randomSource w' = randomSource w"
    by blast
  have "migrateSession env sid dest Move False w =
           (Inr \<lparr>success = True, sessionId = sid, sourceWorkspace = ws_path A,
                 destinationWorkspace = normalizePath env dest, mode = Move,
                 newSessionId = None, error = None, dryRun = False\<rparr>, w')"
    unfolding migrateSession_def migrateResolved_def Let_def
    by (simp add: src dst differ run)
  with rest ne ix arr show ?thesis by auto
qed


text \<open>
  Claim C1. Let the record with identifier \<open>sid\<close> be held by store \<open>A\<close> (the store that
  resolution locates), once in its array; let the destination path resolve to store
  \<open>B\<close>, differ from \<open>A\<close>'s path after normalization, and let both stores open and take
  writes (the listing gives every workspace its own database file). Then
  \<open>migrateSession\<close> in move mode, not a dry run, succeeds; \<open>A\<close>'s array is the old one
  without the record and \<open>B\<close>'s array is the old one with the record appended: \<open>A\<close> has
  one record less, \<open>B\<close> one more, and the identifier is in \<open>B\<close>'s array and no longer in
  \<open>A\<close>'s.
\<close>

theorem move_is_a_transfer:
  assumes "distinct (map dbPath (workspaces w))"
      and "findWorkspaceForSession sid w = Some A"
      and "length (filter (\<lambda>s. composerId s = Some (JStr sid)) (arrayOf w (dbPath A))) = 1"
      and "findWorkspaceByPath env (normalizePath env dest) w = Some B"
      and "\<not> pathsEqual env (ws_path A) (normalizePath env dest)"
      and "storeUsable w (dbPath A)" and "storeUsable w (dbPath B)"
  shows "\<exists>r w' i. migrateSession env sid dest Move False w = (Inr r, w') \<and> success r \<and>
           findIndex (\<lambda>s. composerId s = Some (JStr sid)) (arrayOf w (dbPath A)) = Some i \<and>
           arrayOf w' (dbPath A) = filterIndexNot i (arrayOf w (dbPath A)) \<and>
           arrayOf w' (dbPath B) = arrayOf w (dbPath B) @ [arrayOf w (dbPath A) ! i] \<and>
           length (arrayOf w' (dbPath A)) + 1 = length (arrayOf w (dbPath A)) \<and>
           length (arrayOf w' (dbPath B)) = length (arrayOf w (dbPath B)) + 1 \<and>
           (\<exists>s \<in> set (arrayOf w' (dbPath B)). composerId s = Some (JStr sid)) \<and>
           \<not> (\<exists>s \<in> set (arrayOf w' (dbPath A)). composerId s = Some (JStr sid))"
proof -
  let ?P = "\<lambda>s. composerId s = Some (JStr sid)"
  from migrateSession_move[OF assms(1,2,4,5,6,7)] obtain w' i where
    run: "migrateSession env sid dest Move False w =
           (Inr \<lparr>success = True, sessionId = sid, sourceWorkspace = ws_path A,
                 destinationWorkspace = normalizePath env dest, mode = Move,
                 newSessionId = None, error = None, dryRun = False\<rparr>, w')" and
    ix: "findIndex ?P (arrayOf w (dbPath A)) = Some i" and
    a: "arrayOf w' (dbPath A) = filterIndexNot i (arrayOf w (dbPath A))" and
    b: "arrayOf w' (dbPath B) = arrayOf w (dbPath B) @ [arrayOf w (dbPath A) ! i]"
    by blast
  from findIndex_Some[OF ix] have i: "i < length (arrayOf w (dbPath A))"
    and Pi: "?P (arrayOf w (dbPath A) ! i)" by simp_all
  from filter_removed_first[OF ix] assms(3)
  have "filter ?P (filterIndexNot i (arrayOf w (dbPath A))) = []" by simp
  then have gone: "\<not> (\<exists>s \<in> set (arrayOf w' (dbPath A)). ?P s)"
    unfolding a by (simp add: filter_empty_conv)
  have there: "\<exists>s \<in> set (arrayOf w' (dbPath B)). ?P s"
    unfolding b using Pi by simp
  have la: "length (arrayOf w' (dbPath A)) + 1 = length (arrayOf w (dbPath A))"
    unfolding a by (rule filterIndexNot_length[OF i])
  have lb: "length (arrayOf w' (dbPath B)) = length (arrayOf w (dbPath B)) + 1"
    unfolding b by simp
  from run ix a b la lb there gone show ?thesis by auto
qed

text \<open>The example: \<open>r1\<close> moves from \<open>/a\<close> to \<open>/b\<close>.\<close>

theorem move_is_a_transfer_witness:
  "\<exists>r w' i. migrateSession exampleEnv ''r1'' ''/b/'' Move False exampleWorld = (Inr r, w') \<and> success r \<and>
     findIndex (\<lambda>s. composerId s = Some (JStr ''r1'')) (arrayOf exampleWorld ''da'') = Some i \<and>
     arrayOf w' ''da'' = filterIndexNot i (arrayOf exampleWorld ''da'') \<and>
     arrayOf w' ''db'' = arrayOf exampleWorld ''db'' @ [arrayOf exampleWorld ''da'' ! i] \<and>
     length (arrayOf w' ''da'') + 1 = length (arrayOf exampleWorld ''da'') \<and>
     length (arrayOf w' ''db'') = length (arrayOf exampleWorld ''db'') + 1 \<and>
     (\<exists>s \<in> set (arrayOf w' ''db''). composerId s = Some (JStr ''r1'')) \<and>
     \<not> (\<exists>s \<in> set (arrayOf w' ''da''). composerId s = Some (JStr ''r1''))"
proof -
  let ?A = "\<lparr>ws_id = ''1'', ws_path = ''/a'', dbPath = ''da''\<rparr>"
  let ?B = "\<lparr>ws_id = ''2'', ws_path = ''/b'', dbPath = ''db''\<rparr>"
  have h1: "distinct (map dbPath (workspaces exampleWorld))" by code_simp
  have h2: "findWorkspaceForSession ''r1'' exampleWorld = Some ?A" by code_simp
  have h3: "length (filter (\<lambda>s. composerId s = Some (JStr ''r1'')) (arrayOf exampleWorld (dbPath ?A))) = 1"
    by code_simp
  have h4: "findWorkspaceByPath exampleEnv (normalizePath exampleEnv ''/b/'') exampleWorld = Some ?B"
    by code_simp
  have h5: "\<not> pathsEqual exampleEnv (ws_path ?A) (normalizePath exampleEnv ''/b/'')" by code_simp
  have h6: "storeUsable exampleWorld (dbPath ?A)" by code_simp
  have h7: "storeUsable exampleWorld (dbPath ?B)" by code_simp
  from move_is_a_transfer[OF h1 h2 h3 h4 h5 h6 h7] show ?thesis by simp
qed


section \<open>Moving a session there and back\<close>

lemma arrayOf_cong: "dbs w' q = dbs w q \<Longrightarrow> arrayOf w' q = arrayOf w q"
  by (simp add: arrayOf_def getComposerData_def)

lemma findIndex_append_last:
  assumes "\<forall>x \<in> set xs. \<not> P x" and "P y"
  shows "findIndex P (xs @ [y]) = Some (length xs)"
  using assms by (induction xs) simp_all


text \<open>
  Claim C7. Let the record be held by store \<open>A\<close> only, once; let the two destination
  paths resolve to \<open>B\<close> and to \<open>A\<close>, each differing from the other store's path, and let
  both stores open and take writes. Then moving the record to \<open>B\<close> and moving it back to
  \<open>A\<close> both succeed, the two arrays have their original lengths again, \<open>B\<close>'s array is
  the original one, and the record is in \<open>A\<close>'s array again (as its last element).
\<close>

theorem move_there_and_back:
  assumes wf: "distinct (map dbPath (workspaces w))"
      and src: "findWorkspaceForSession sid w = Some A"
      and only: "\<forall>ws \<in> set (workspaces w). holdsSession w (dbPath ws) sid \<longrightarrow> ws = A"
      and once: "length (filter (\<lambda>s. composerId s = Some (JStr sid)) (arrayOf w (dbPath A))) = 1"
      and toB: "findWorkspaceByPath env (normalizePath env destB) w = Some B"
      and toA: "findWorkspaceByPath env (normalizePath env destA) w = Some A"
      and differB: "\<not> pathsEqual env (ws_path A) (normalizePath env destB)"
      and differA: "\<not> pathsEqual env (ws_path B) (normalizePath env destA)"
      and ua: "storeUsable w (dbPath A)" and ub: "storeUsable w (dbPath B)"
  shows "\<exists>r1 w1 r2 w2 i.
           migrateSession env sid destB Move False w = (Inr r1, w1) \<and> success r1 \<and>
           migrateSession env sid destA Move False w1 = (Inr r2, w2) \<and> success r2 \<and>
           length (arrayOf w2 (dbPath A)) = length (arrayOf w (dbPath A)) \<and>
           length (arrayOf w2 (dbPath B)) = length (arrayOf w (dbPath B)) \<and>
           (\<exists>s \<in> set (arrayOf w2 (dbPath A)). composerId s = Some (JStr sid)) \<and>
           findIndex (\<lambda>s. composerId s = Some (JStr sid)) (arrayOf w (dbPath A)) = Some i \<and>
           arrayOf w2 (dbPath A) = filterIndexNot i (arrayOf w (dbPath A)) @ [arrayOf w (dbPath A) ! i] \<and>
           arrayOf w2 (dbPath B) = arrayOf w (dbPath B)"
proof -
  let ?P = "\<lambda>s. composerId s = Some (JStr sid)"
  let ?a = "dbPath A" and ?b = "dbPath B"
  from find_SomeD[OF src[unfolded findWorkspaceForSession_def]]
  have A: "A \<in> set (workspaces w)" by simp
  from find_SomeD[OF toB[unfolded findWorkspaceByPath_def]]
  have B: "B \<in> set (workspaces w)" by simp
  \<comment> \<open>the first move\<close>
  from migrateSession_move[OF wf src toB differB ua ub] obtain w1 i where
    run1: "migrateSession env sid destB Move False w =
           (Inr \<lparr>success = True, sessionId = sid, sourceWorkspace = ws_path A,
                 destinationWorkspace = normalizePath env destB, mode = Move,
                 newSessionId = None, error = None, dryRun = False\<rparr>, w1)" and
    ix: "findIndex ?P (arrayOf w ?a) = Some i" and
    ne: "?a \<noteq> ?b" and
    ws1: "workspaces w1 = workspaces w" and
    a1: "arrayOf w1 ?a = filterIndexNot i (arrayOf w ?a)" and
    b1: "arrayOf w1 ?b = arrayOf w ?b @ [arrayOf w ?a ! i]" and
    others1: "\<forall>q. q \<noteq> ?a \<longrightarrow> q \<noteq> ?b \<longrightarrow> dbs w1 q = dbs w q" and
    usable1: "\<forall>q. storeUsable w1 q = storeUsable w q"
    by blast
  from findIndex_Some[OF ix] have i: "i < length (arrayOf w ?a)"
    and Pi: "?P (arrayOf w ?a ! i)" by simp_all
  from filter_removed_first[OF ix] once
  have "filter ?P (filterIndexNot i (arrayOf w ?a)) = []" by simp
  then have goneA: "\<forall>s \<in> set (arrayOf w1 ?a). \<not> ?P s"
    unfolding a1 by (simp add: filter_empty_conv)
  have "A \<noteq> B" using ne by auto
  with bspec[OF only B] have "\<not> holdsSession w ?b sid" by auto
  then have cleanB: "\<forall>s \<in> set (arrayOf w ?b). \<not> ?P s"
    by (simp add: holdsSession_iff)
  \<comment> \<open>after it, the destination is the only store that holds the record\<close>
  have holdsB: "holdsSession w1 ?b sid"
    unfolding holdsSession_iff b1 using Pi by simp
  have onlyB: "\<forall>ws \<in> set (workspaces w). holdsSession w1 (dbPath ws) sid \<longrightarrow> ws = B"
  proof (intro ballI impI)
    fix ws assume ws: "ws \<in> set (workspaces w)" and h: "holdsSession w1 (dbPath ws) sid"
    show "ws = B"
    proof (cases "dbPath ws = ?b")
      case True
      from distinct_dbPath[OF wf ws B True] show ?thesis .
    next
      case False
      have "dbPath ws \<noteq> ?a"
      proof
        assume "dbPath ws = ?a"
        with h goneA show False by (simp add: holdsSession_iff)
      qed
      with False others1 have "dbs w1 (dbPath ws) = dbs w (dbPath ws)" by simp
      from arrayOf_cong[OF this] h have "holdsSession w (dbPath ws) sid"
        by (simp add: holdsSession_iff)
      with bspec[OF only ws] have "ws = A" by simp
      with \<open>dbPath ws \<noteq> ?a\<close> show ?thesis by simp
    qed
  qed
  have src2: "findWorkspaceForSession sid w1 = Some B"
    unfolding findWorkspaceForSession_def ws1
    by (rule find_unique[OF B holdsB onlyB])
  have toA1: "findWorkspaceByPath env (normalizePath env destA) w1 = Some A"
    using toA by (simp add: findWorkspaceByPath_def ws1)
  have wf1: "distinct (map dbPath (workspaces w1))" using wf by (simp add: ws1)
  have ua1: "storeUsable w1 ?a" and ub1: "storeUsable w1 ?b" using ua ub usable1 by simp_all
  \<comment> \<open>the move back\<close>
  from migrateSession_move[OF wf1 src2 toA1 differA ub1 ua1] obtain w2 j where
    run2: "migrateSession env sid destA Move False w1 =
           (Inr \<lparr>success = True, sessionId = sid, sourceWorkspace = ws_path B,
                 destinationWorkspace = normalizePath env destA, mode = Move,
                 newSessionId = None, error = None, dryRun = False\<rparr>, w2)" and
    jx: "findIndex ?P (arrayOf w1 ?b) = Some j" and
    b2: "arrayOf w2 ?b = filterIndexNot j (arrayOf w1 ?b)" and
    a2: "arrayOf w2 ?a = arrayOf w1 ?a @ [arrayOf w1 ?b ! j]"
    by blast
  from findIndex_append_last[of "arrayOf w ?b" ?P "arrayOf w ?a ! i", OF cleanB Pi] jx
  have j: "j = length (arrayOf w ?b)" by (simp add: b1)
  have backB: "arrayOf w2 ?b = arrayOf w ?b"
    unfolding b2 b1 j by (simp add: filterIndexNot_eq)
  have backA: "arrayOf w2 ?a = filterIndexNot i (arrayOf w ?a) @ [arrayOf w ?a ! i]"
    unfolding a2 a1 b1 j by simp
  have lenA: "length (arrayOf w2 ?a) = length (arrayOf w ?a)"
    unfolding backA using filterIndexNot_length[OF i] by simp
  have inA: "\<exists>s \<in> set (arrayOf w2 ?a). ?P s"
    unfolding backA using Pi by simp
  from run1 run2 lenA backB inA ix backA show ?thesis by auto
qed

text \<open>The example: \<open>r1\<close> moves from \<open>/a\<close> to \<open>/b\<close> and back.\<close>

theorem move_there_and_back_witness:
  "\<exists>r1 w1 r2 w2 i.
     migrateSession exampleEnv ''r1'' ''/b'' Move False exampleWorld = (Inr r1, w1) \<and> success r1 \<and>
     migrateSession exampleEnv ''r1'' ''/a'' Move False w1 = (Inr r2, w2) \<and> success r2 \<and>
     length (arrayOf w2 ''da'') = length (arrayOf exampleWorld ''da'') \<and>
     length (arrayOf w2 ''db'') = length (arrayOf exampleWorld ''db'') \<and>
     (\<exists>s \<in> set (arrayOf w2 ''da''). composerId s = Some (JStr ''r1'')) \<and>
     findIndex (\<lambda>s. composerId s = Some (JStr ''r1'')) (arrayOf exampleWorld ''da'') = Some i \<and>
     arrayOf w2 ''da'' = filterIndexNot i (arrayOf exampleWorld ''da'') @ [arrayOf exampleWorld ''da'' ! i] \<and>
     arrayOf w2 ''db'' = arrayOf exampleWorld ''db''"
proof -
  let ?A = "\<lparr>ws_id = ''1'', ws_path = ''/a'', dbPath = ''da''\<rparr>"
  let ?B = "\<lparr>ws_id = ''2'', ws_path = ''/b'', dbPath = ''db''\<rparr>"
  have h1: "distinct (map dbPath (workspaces exampleWorld))" by code_simp
  have h2: "findWorkspaceForSession ''r1'' exampleWorld = Some ?A" by code_simp
  have h3: "\<forall>ws \<in> set (workspaces exampleWorld). holdsSession exampleWorld (dbPath ws) ''r1'' \<longrightarrow> ws = ?A"
    by code_simp
  have h4: "length (filter (\<lambda>s. composerId s = Some (JStr ''r1'')) (arrayOf exampleWorld (dbPath ?A))) = 1"
    by code_simp
  have h5: "findWorkspaceByPath exampleEnv (normalizePath exampleEnv ''/b'') exampleWorld = Some ?B"
    by code_simp
  have h6: "findWorkspaceByPath exampleEnv (normalizePath exampleEnv ''/a'') exampleWorld = Some ?A"
    by code_simp
  have h7: "\<not> pathsEqual exampleEnv (ws_path ?A) (normalizePath exampleEnv ''/b'')" by code_simp
  have h8: "\<not> pathsEqual exampleEnv (ws_path ?B) (normalizePath exampleEnv ''/a'')" by code_simp
  have h9: "storeUsable exampleWorld (dbPath ?A)" by code_simp
  have h10: "storeUsable exampleWorld (dbPath ?B)" by code_simp
  from move_there_and_back[OF h1 h2 h3 h4 h5 h6 h7 h8 h9 h10] show ?thesis by simp
qed

section \<open>What the replication of content items leaves alone\<close>

lemma sameStores_refl: "sameStores w w"
  by (simp add: sameStores_def)

lemma sameStores_trans: "sameStores w w1 \<Longrightarrow> sameStores w1 w2 \<Longrightarrow> sameStores w w2"
  by (simp add: sameStores_def)

lemma generateSessionId_sameStores: "sameStores w (snd (generateSessionId w))"
  by (simp add: generateSessionId_def sameStores_def split: prod.splits)

lemma generateSessionId_globalDb: "globalDb (snd (generateSessionId w)) = globalDb w"
  by (simp add: generateSessionId_def split: prod.splits)

lemma insertOrReplace_sameStores: "insertOrReplace k v w = Inr w' \<Longrightarrow> sameStores w w'"
  by (auto simp: insertOrReplace_def sameStores_def split: option.splits if_splits)

lemma remapHeaders_sameStores:
  "remapHeaders hs m acc w = (out, w') \<Longrightarrow> sameStores w w'"
proof (induction hs arbitrary: m acc w)
  case Nil
  then show ?case by (simp add: sameStores_refl)
next
  case (Cons h hs)
  show ?case
  proof (cases "getProp h ''bubbleId''")
    case (Inl e)
    with Cons.prems show ?thesis by (simp add: sameStores_refl)
  next
    case (Inr ob)
    show ?thesis
    proof (cases ob)
      case None
      with Inr Cons.prems Cons.IH show ?thesis by simp
    next
      case (Some b)
      show ?thesis
      proof (cases "truthy b")
        case False
        with Some Inr Cons.prems Cons.IH show ?thesis by simp
      next
        case True
        obtain nid w1 where g: "generateSessionId w = (nid, w1)"
          by (cases "generateSessionId w")
        with True Some Inr Cons.prems
        have "remapHeaders hs (m(b \<mapsto> nid)) (acc @ [spreadWith h ''bubbleId'' (JStr nid)]) w1 = (out, w')"
          by simp
        from Cons.IH[OF this] generateSessionId_sameStores[of w] g
        show ?thesis by (auto intro: sameStores_trans)
      qed
    qed
  qed
qed

lemma copyComposerEntry_sameStores:
  "copyComposerEntry old new g w = (out, w') \<Longrightarrow> sameStores w w'"
  unfolding copyComposerEntry_def
  by (auto split: option.splits sum.splits prod.splits
        intro: sameStores_refl sameStores_trans
        dest!: remapHeaders_sameStores insertOrReplace_sameStores)

lemma copyBubbleRows_sameStores:
  "copyBubbleRows rows new m w = (out, w') \<Longrightarrow> sameStores w w'"
proof (induction rows arbitrary: m w)
  case Nil
  then show ?case by (simp add: sameStores_refl)
next
  case (Cons row rows)
  obtain k v where row: "row = (k, v)" by (cases row)
  show ?case
  proof (cases "nthOpt (splitOn CHR '':'' k) 2")
    case None
    with row Cons.prems Cons.IH show ?thesis by simp
  next
    case (Some ob)
    show ?thesis
    proof (cases "ob = []")
      case True
      with Some row Cons.prems Cons.IH show ?thesis by simp
    next
      case False
      define step where "step =
        (case m (JStr ob) of
           Some known \<Rightarrow> (known, m, w)
         | None \<Rightarrow> (let (fresh, w') = generateSessionId w
                    in (fresh, m(JStr ob \<mapsto> fresh), w')))"
      obtain nb m1 w1 where st: "step = (nb, m1, w1)" by (cases step)
      have s1: "sameStores w w1"
        using st generateSessionId_sameStores[of w] unfolding step_def
        by (auto split: option.splits prod.splits simp: sameStores_refl)
      from Cons.prems row Some False st[unfolded step_def]
      have run: "(case parseCell v of
                   Inl e \<Rightarrow> (Inl e, w1)
                 | Inr parsed \<Rightarrow>
                     (case setProp parsed ''bubbleId'' (JStr nb) of
                        Inl e \<Rightarrow> (Inl e, w1)
                      | Inr bubbleData \<Rightarrow>
                          (case insertOrReplace (''bubbleId:'' @ new @ '':'' @ nb)
                                  (Parsed bubbleData) w1 of
                             Inl e \<Rightarrow> (Inl e, w1)
                           | Inr w2 \<Rightarrow> copyBubbleRows rows new m1 w2))) = (out, w')"
        by simp
      then have "sameStores w1 w'"
        by (auto split: sum.splits intro: sameStores_refl sameStores_trans
              dest!: insertOrReplace_sameStores Cons.IH)
      with s1 show ?thesis by (rule sameStores_trans)
    qed
  qed
qed

lemma copyBubbleDataInGlobalStorage_sameStores:
  "copyBubbleDataInGlobalStorage old new w = (out, w') \<Longrightarrow> sameStores w w'"
  unfolding copyBubbleDataInGlobalStorage_def Let_def
  by (auto split: option.splits sum.splits prod.splits if_splits
        intro: sameStores_refl sameStores_trans
        dest!: copyComposerEntry_sameStores copyBubbleRows_sameStores)

section \<open>Writes after a replication\<close>

lemma updateComposerData_effect:
  assumes "updateComposerData p cs f raw w = Inr w'"
  shows "workspaces w' = workspaces w \<and> randomSource w' = randomSource w \<and>
         globalDb w' = globalDb w \<and> randomCalls w' = randomCalls w \<and>
         arrayOf w' p = cs \<and> (\<forall>q. q \<noteq> p \<longrightarrow> dbs w' q = dbs w q)"
proof -
  from updateComposerData_Inr[OF assms] obtain db where
    "w' = w\<lparr>dbs := (dbs w)(p \<mapsto>
               db\<lparr>composerRow := Some \<lparr>composers = cs, isNewFormat = f, rawData = raw\<rparr>\<rparr>)\<rparr>"
    by blast
  then show ?thesis by (simp add: arrayOf_def getComposerData_def)
qed

lemma composerId_setField: "composerId (setField ''composerId'' v s) = Some v"
  unfolding composerId_def by (induction s) auto

lemma sameStores_arrayOf: "sameStores w w' \<Longrightarrow> arrayOf w' q = arrayOf w q"
  by (simp add: sameStores_def arrayOf_def getComposerData_def)

lemma sameStores_update:
  "sameStores w w' \<Longrightarrow> updateComposerData p cs f raw w' = Inr w'' \<Longrightarrow>
     workspaces w'' = workspaces w \<and> randomSource w'' = randomSource w \<and>
     arrayOf w'' p = cs \<and> (\<forall>q. q \<noteq> p \<longrightarrow> dbs w'' q = dbs w q)"
  by (drule updateComposerData_effect) (simp add: sameStores_def)

section \<open>The destination guard\<close>

lemma arrayOf_nonempty:
  "arrayOf w p \<noteq> [] \<Longrightarrow> \<exists>r. getComposerData w p = Some r \<and> composers r = arrayOf w p \<and> composers r \<noteq> []"
  by (cases "getComposerData w p") (simp_all add: arrayOf_def)

lemma openDatabaseReadWrite_Inr: "openDatabaseReadWrite w p = Inr h \<Longrightarrow> h = p"
  by (auto simp: openDatabaseReadWrite_def split: option.splits if_splits)

lemma stringIds_nonempty: "stringIds (map composerId cs) \<noteq> [] \<Longrightarrow> cs \<noteq> []"
  by (cases cs) simp_all


lemma openDatabaseReadWrite_opens: "storeOpens w p \<Longrightarrow> openDatabaseReadWrite w p = Inr p"
  by (auto simp: storeOpens_def openDatabaseReadWrite_def split: option.splits)

text \<open>Without \<open>force\<close>, when the store that \<open>migrateWorkspace\<close> resolves for the
  destination holds a record, the guard throws and the state is as it was.\<close>

lemma migrateWorkspace_refuses_without_force:
  assumes notSame: "\<not> pathsEqual env (normalizePath env src) (normalizePath env dest)"
      and srcFound: "findWorkspaceByPath env (normalizePath env src) w = Some A"
      and dstFound: "findWorkspaceByPath env (normalizePath env dest) w = Some B"
      and openA: "storeOpens w (dbPath A)"
      and openB: "storeOpens w (dbPath B)"
      and recordsA: "arrayOf w (dbPath A) \<noteq> []"
      and recordsB: "arrayOf w (dbPath B) \<noteq> []"
  shows "migrateWorkspace env src dest md dry False w =
           (Inl (DestinationHasSessionsError (normalizePath env dest)
                   (length (arrayOf w (dbPath B)))), w)"
proof -
  let ?nd = "normalizePath env dest"
  from arrayOf_nonempty[OF recordsA] obtain sr where
    sr: "getComposerData w (dbPath A) = Some sr" "composers sr \<noteq> []"
    by blast
  from arrayOf_nonempty[OF recordsB] obtain dr where
    dr: "getComposerData w (dbPath B) = Some dr" "composers dr = arrayOf w (dbPath B)"
        "composers dr \<noteq> []"
    by blast
  have guard: "destinationGuard False ?nd B w =
                 Some (DestinationHasSessionsError ?nd (length (arrayOf w (dbPath B))))"
    using openDatabaseReadWrite_opens[OF openB] dr by (simp add: destinationGuard_def)
  show ?thesis
    unfolding migrateWorkspace_def Let_def
    using notSame srcFound dstFound openDatabaseReadWrite_opens[OF openA] sr guard by simp
qed

lemma migrateWorkspace_refuses_in_the_example:
  "migrateWorkspace exampleEnv ''/a'' ''/b'' Move False False exampleWorldBusy =
     (Inl (DestinationHasSessionsError ''/b'' 1), exampleWorldBusy)"
proof -
  let ?A = "\<lparr>ws_id = ''1'', ws_path = ''/a'', dbPath = ''da''\<rparr>"
  let ?B = "\<lparr>ws_id = ''2'', ws_path = ''/b'', dbPath = ''db''\<rparr>"
  have h1: "\<not> pathsEqual exampleEnv (normalizePath exampleEnv ''/a'') (normalizePath exampleEnv ''/b'')"
    by code_simp
  have h2: "findWorkspaceByPath exampleEnv (normalizePath exampleEnv ''/a'') exampleWorldBusy = Some ?A"
    by code_simp
  have h3: "findWorkspaceByPath exampleEnv (normalizePath exampleEnv ''/b'') exampleWorldBusy = Some ?B"
    by code_simp
  have h4: "storeOpens exampleWorldBusy (dbPath ?A)" by code_simp
  have h5: "storeOpens exampleWorldBusy (dbPath ?B)" by code_simp
  have h6: "arrayOf exampleWorldBusy (dbPath ?A) \<noteq> []" by code_simp
  have h7: "arrayOf exampleWorldBusy (dbPath ?B) \<noteq> []" by code_simp
  have nd: "normalizePath exampleEnv ''/b'' = ''/b''" by code_simp
  have arr: "arrayOf exampleWorldBusy ''db'' = [exampleSession ''x1'']" by code_simp
  from migrateWorkspace_refuses_without_force[OF h1 h2 h3 h4 h5 h6 h7, of Move False]
  show ?thesis by (simp add: nd arr)
qed

text \<open>
  Claim C5 says that \<open>migrateWorkspace\<close> without \<open>force\<close> fails with
  \<open>DestinationHasSessionsError\<close>, before any mutation, when the destination store
  already owns a record. The guard inspects the store that \<open>migrateWorkspace\<close> resolves
  for the normalized destination; the batch hands that normalized path to
  \<open>migrateSession\<close>, which normalizes it once more and resolves the result itself.
  \<open>normalizePath\<close> strips trailing slashes and then trailing backslashes, each once, so a
  second pass can strip more: for the destination of the example (\<open>/b/\<close>, a backslash,
  a slash, a backslash) the guard inspects the empty store of the folder named by a
  backslash, and the batch writes, without \<open>force\<close>, behind the record \<open>x1\<close> that the
  store of \<open>/b\<close> already owns.
\<close>

theorem guard_inspects_another_store:
  "findWorkspaceByPath exampleEnv (normalizePath exampleEnv exampleDestination) exampleWorldAliased =
     Some \<lparr>ws_id = ''2'', ws_path = ''/b/'' @ [CHR 0x5C], dbPath = ''db''\<rparr> \<and>
   arrayOf exampleWorldAliased ''db'' = [] \<and>
   arrayOf exampleWorldAliased ''dc'' = [exampleSession ''x1''] \<and>
   fst (migrateWorkspace exampleEnv ''/a'' exampleDestination Move False False exampleWorldAliased) =
     Inr \<lparr>agg_success = True, agg_source = ''/a'',
          agg_destination = ''/b/'' @ [CHR 0x5C] @ ''/'',
          agg_mode = Move, totalSessions = 2, successCount = 2, failureCount = 0,
          results =
            [\<lparr>success = True, sessionId = ''r1'', sourceWorkspace = ''/a'',
               destinationWorkspace = ''/b/'', mode = Move,
               newSessionId = None, error = None, dryRun = False\<rparr>,
             \<lparr>success = True, sessionId = ''r2'', sourceWorkspace = ''/a'',
               destinationWorkspace = ''/b/'', mode = Move,
               newSessionId = None, error = None, dryRun = False\<rparr>],
          agg_dryRun = False\<rparr> \<and>
   arrayOf (snd (migrateWorkspace exampleEnv ''/a'' exampleDestination Move False False
                   exampleWorldAliased)) ''db'' = [] \<and>
   arrayOf (snd (migrateWorkspace exampleEnv ''/a'' exampleDestination Move False False
                   exampleWorldAliased)) ''dc'' =
     [exampleSession ''x1'', exampleSession ''r1'', exampleSession ''r2'']"
  by code_simp

section \<open>Copying a session\<close>

lemma hexDigit_in: "hexDigit v \<in> set ''0123456789abcdef''"
proof -
  have "v mod 16 < length ''0123456789abcdef''" by simp
  from nth_mem[OF this] show ?thesis unfolding hexDigit_def .
qed

lemma fillTemplate_Cons:
  "fst (fillTemplate (c # cs) rnd n) =
     (if c = CHR ''x'' \<or> c = CHR ''y''
      then hexDigit (if c = CHR ''x'' then rnd n mod 16 else rnd n mod 16 mod 4 + 8)
             # fst (fillTemplate cs rnd (Suc n))
      else c # fst (fillTemplate cs rnd n))"
  by (simp add: Let_def split: prod.splits)

lemma fillTemplate_length: "length (fst (fillTemplate t rnd n)) = length t"
proof (induction t arbitrary: n)
  case Nil
  show ?case by simp
next
  case (Cons c cs)
  show ?case unfolding fillTemplate_Cons by (simp add: Cons.IH)
qed

lemma fillTemplate_chars:
  "x \<in> set (fst (fillTemplate t rnd n)) \<Longrightarrow> x \<in> set t \<or> x \<in> set ''0123456789abcdef''"
proof (induction t arbitrary: n)
  case Nil
  then show ?case by simp
next
  case (Cons c cs)
  define H where "H = set ''0123456789abcdef''"
  have hex: "hexDigit v \<in> H" for v unfolding H_def by (rule hexDigit_in)
  have IH: "x \<in> set (fst (fillTemplate cs rnd m)) \<Longrightarrow> x \<in> set cs \<or> x \<in> H" for m
    unfolding H_def by (rule Cons.IH)
  have "x \<in> set (c # cs) \<or> x \<in> H"
  proof (cases "c = CHR ''x'' \<or> c = CHR ''y''")
    case True
    with Cons.prems have "x = hexDigit (if c = CHR ''x'' then rnd n mod 16 else rnd n mod 16 mod 4 + 8)
        \<or> x \<in> set (fst (fillTemplate cs rnd (Suc n)))"
      unfolding fillTemplate_Cons by simp
    with hex IH[of "Suc n"] show ?thesis by auto
  next
    case False
    with Cons.prems have "x = c \<or> x \<in> set (fst (fillTemplate cs rnd n))"
      unfolding fillTemplate_Cons by simp
    with IH[of n] show ?thesis by auto
  qed
  then show ?case unfolding H_def .
qed

lemma generateSessionId_length: "length (fst (generateSessionId w)) = 36"
  using fillTemplate_length[of "''xxxxxxxx-xxxx-4xxx-yxxx-xxxxxxxxxxxx''" "randomSource w" "randomCalls w"]
  by (simp add: generateSessionId_def split: prod.splits)

lemma generateSessionId_no_colon: "CHR '':'' \<notin> set (fst (generateSessionId w))"
proof
  assume "CHR '':'' \<in> set (fst (generateSessionId w))"
  then have "CHR '':'' \<in> set (fst (fillTemplate ''xxxxxxxx-xxxx-4xxx-yxxx-xxxxxxxxxxxx''
                                 (randomSource w) (randomCalls w)))"
    by (simp add: generateSessionId_def split: prod.splits)
  from fillTemplate_chars[OF this] show False by simp
qed

lemma map_of_setField_other: "k' \<noteq> k \<Longrightarrow> map_of (setField k v s) k' = map_of s k'"
  by (induction s) auto

lemma performMigration_copy:
  assumes run: "performMigration sid Copy srcPath nd A B w = (out, w')"
  shows "(\<forall>q. q \<noteq> dbPath B \<longrightarrow> dbs w' q = dbs w q) \<and>
         (case out of
            Inl e \<Rightarrow> dbs w' = dbs w
          | Inr r \<Rightarrow>
              newSessionId r = Some (fst (generateSessionId w)) \<and>
              (\<exists>i. findIndex (\<lambda>s. composerId s = Some (JStr sid)) (arrayOf w (dbPath A)) = Some i \<and>
                   arrayOf w' (dbPath B) =
                     arrayOf w (dbPath B) @
                       [setField ''composerId'' (JStr (fst (generateSessionId w)))
                          (arrayOf w (dbPath A) ! i)]) \<and>
              globalDb w' =
                globalDb (snd (copyBubbleDataInGlobalStorage sid (fst (generateSessionId w))
                                 (snd (generateSessionId w)))))"
proof -
  let ?a = "dbPath A" and ?b = "dbPath B"
  show ?thesis
  proof (cases "openDatabaseReadWrite w ?a")
    case (Inl e)
    with run show ?thesis by (auto simp: performMigration_def)
  next
    case oa: (Inr sourceDb)
    note sdb = openDatabaseReadWrite_Inr[OF oa]
    show ?thesis
    proof (cases "openDatabaseReadWrite w ?b")
      case (Inl e)
      with run oa show ?thesis by (auto simp: performMigration_def)
    next
      case ob: (Inr destDb)
      note ddb = openDatabaseReadWrite_Inr[OF ob]
      show ?thesis
      proof (cases "getComposerData w ?a")
        case None
        with run oa ob sdb ddb show ?thesis by (auto simp: performMigration_def)
      next
        case (Some sr)
        have sa: "arrayOf w ?a = composers sr" by (simp add: arrayOf_def Some)
        show ?thesis
        proof (cases "findIndex (\<lambda>s. composerId s = Some (JStr sid)) (composers sr)")
          case None
          with run oa ob sdb ddb Some show ?thesis by (auto simp: performMigration_def)
        next
          case ix: (Some i)
          let ?dest = "getComposerData w ?b"
          let ?dc = "case ?dest of None \<Rightarrow> [] | Some dr \<Rightarrow> composers dr"
          let ?df = "case ?dest of None \<Rightarrow> isNewFormat sr | Some dr \<Rightarrow> isNewFormat dr"
          let ?dr = "case ?dest of None \<Rightarrow> None | Some dr \<Rightarrow> rawData dr"
          have dc: "arrayOf w ?b = ?dc" by (simp add: arrayOf_def)
          obtain nid w1 where g: "generateSessionId w = (nid, w1)"
            by (cases "generateSessionId w")
          obtain o2 w2 where c: "copyBubbleDataInGlobalStorage sid nid w1 = (o2, w2)"
            by (cases "copyBubbleDataInGlobalStorage sid nid w1")
          from generateSessionId_sameStores[of w] g copyBubbleDataInGlobalStorage_sameStores[OF c]
          have s2: "sameStores w w2" by (auto intro: sameStores_trans)
          then have f2: "dbs w2 = dbs w" by (simp add: sameStores_def)
          show ?thesis
          proof (cases o2)
            case (Inl e)
            with run oa ob sdb ddb Some ix g c
            have "out = Inl e" "w' = w2" by (auto simp: performMigration_def Let_def)
            with f2 show ?thesis by simp
          next
            case (Inr m)
            let ?copied = "setField ''composerId'' (JStr nid) (composers sr ! i)"
            let ?u = "updateComposerData ?b (?dc @ [?copied]) ?df ?dr w2"
            show ?thesis
            proof (cases ?u)
              case (Inl e)
              with run oa ob sdb ddb Some ix g c Inr
              have "out = Inl e" "w' = w2" by (auto simp: performMigration_def Let_def)
              with f2 show ?thesis by simp
            next
              case u: (Inr w3)
              with run oa ob sdb ddb Some ix g c Inr
              have o: "out = Inr \<lparr>success = True, sessionId = sid, sourceWorkspace = srcPath,
                                destinationWorkspace = nd, mode = Copy,
                                newSessionId = Some nid, error = None, dryRun = False\<rparr>" "w' = w3"
                by (auto simp: performMigration_def Let_def)
              from sameStores_update[OF s2 u]
              have e3: "\<forall>q. q \<noteq> ?b \<longrightarrow> dbs w3 q = dbs w q"
                "arrayOf w3 ?b = arrayOf w ?b @ [?copied]"
                by (auto simp: dc)
              from updateComposerData_effect[OF u] have g3: "globalDb w3 = globalDb w2" by simp
              from o e3 g3 g c ix sa show ?thesis by simp
            qed
          qed
        qed
      qed
    qed
  qed
qed

text \<open>When the global store is replicable, the replication completes.\<close>

lemma jsonObject_iff: "jsonObject c \<longleftrightarrow> (\<exists>fs. c = Parsed (JObj fs))"
  by (cases c rule: jsonObject.cases) simp_all

lemma getProp_not_null: "h \<noteq> JNull \<Longrightarrow> \<exists>b. getProp h k = Inr b"
  by (cases h) simp_all

lemma remapHeaders_completes:
  "JNull \<notin> set hs \<Longrightarrow>
     \<exists>m' hs' w'. remapHeaders hs m acc w = (Inr (m', hs'), w') \<and> globalDb w' = globalDb w"
proof (induction hs arbitrary: m acc w)
  case Nil
  show ?case by simp
next
  case (Cons h hs)
  from Cons.prems have h: "h \<noteq> JNull" and rest: "JNull \<notin> set hs" by auto
  from getProp_not_null[OF h] obtain ob where g: "getProp h ''bubbleId'' = Inr ob" by blast
  show ?case
  proof (cases ob)
    case None
    with g Cons.IH[OF rest, of m acc w] show ?thesis by simp
  next
    case (Some b)
    show ?thesis
    proof (cases "truthy b")
      case False
      with Some g Cons.IH[OF rest, of m acc w] show ?thesis by simp
    next
      case True
      obtain nid w1 where gen: "generateSessionId w = (nid, w1)" by (cases "generateSessionId w")
      from generateSessionId_globalDb[of w] gen have g1: "globalDb w1 = globalDb w" by simp
      from Cons.IH[OF rest, of "m(b \<mapsto> nid)" "acc @ [spreadWith h ''bubbleId'' (JStr nid)]" w1]
      obtain m' hs' w' where
        "remapHeaders hs (m(b \<mapsto> nid)) (acc @ [spreadWith h ''bubbleId'' (JStr nid)]) w1
           = (Inr (m', hs'), w')" "globalDb w' = globalDb w1"
        by blast
      with True Some g gen g1 show ?thesis by (simp del: fun_upd_apply)
    qed
  qed
qed

lemma insertOrReplace_writable:
  assumes "globalDb w = Some g" and "\<not> globalWriteFails g"
  shows "\<exists>w' g'. insertOrReplace k v w = Inr w' \<and> globalDb w' = Some g' \<and>
           \<not> globalWriteFails g' \<and>
           set (cursorDiskKV g') \<subseteq> insert (k, v) (set (cursorDiskKV g))"
  using assms by (auto simp: insertOrReplace_def)

lemma copyBubbleRows_completes:
  assumes "globalDb w = Some g" and "\<not> globalWriteFails g"
      and "\<forall>row \<in> set rows. jsonObject (snd row)"
  shows "\<exists>m' w'. copyBubbleRows rows new m w = (Inr m', w')"
  using assms
proof (induction rows arbitrary: m w g)
  case Nil
  show ?case by simp
next
  case (Cons row rows)
  obtain k v where row: "row = (k, v)" by (cases row)
  from Cons.prems(3) row obtain fs where v: "v = Parsed (JObj fs)"
    by (auto simp: jsonObject_iff)
  from Cons.prems(3) have rest: "\<forall>row \<in> set rows. jsonObject (snd row)" by simp
  show ?case
  proof (cases "nthOpt (splitOn CHR '':'' k) 2")
    case None
    with row Cons.IH[OF Cons.prems(1,2) rest, of m] show ?thesis by simp
  next
    case (Some ob)
    show ?thesis
    proof (cases "ob = []")
      case True
      with Some row Cons.IH[OF Cons.prems(1,2) rest, of m] show ?thesis by simp
    next
      case False
      define step where "step =
        (case m (JStr ob) of
           Some known \<Rightarrow> (known, m, w)
         | None \<Rightarrow> (let (fresh, w') = generateSessionId w
                    in (fresh, m(JStr ob \<mapsto> fresh), w')))"
      obtain nb m1 w1 where st: "step = (nb, m1, w1)" by (cases step)
      have g1: "globalDb w1 = Some g"
        using st generateSessionId_globalDb[of w] Cons.prems(1) unfolding step_def
        by (auto split: option.splits prod.splits)
      from insertOrReplace_writable[OF g1 Cons.prems(2),
             of "''bubbleId:'' @ new @ '':'' @ nb" "Parsed (JObj (setField ''bubbleId'' (JStr nb) fs))"]
      obtain w2 g2 where
        ins: "insertOrReplace (''bubbleId:'' @ new @ '':'' @ nb)
                (Parsed (JObj (setField ''bubbleId'' (JStr nb) fs))) w1 = Inr w2" and
        g2: "globalDb w2 = Some g2" "\<not> globalWriteFails g2"
        by blast
      from Cons.IH[OF g2 rest, of m1] obtain m' w' where
        "copyBubbleRows rows new m1 w2 = (Inr m', w')" by blast
      with row Some False st[unfolded step_def] v ins show ?thesis by simp
    qed
  qed
qed

lemma copyComposerEntry_completes:
  assumes g: "globalDb w = Some g" and wr: "\<not> globalWriteFails g"
      and meta: "metadataCopyable (map_of (cursorDiskKV g) (''composerData:'' @ old))"
  shows "\<exists>m w' g'. copyComposerEntry old new g w = (Inr m, w') \<and> globalDb w' = Some g' \<and>
           \<not> globalWriteFails g' \<and>
           (\<forall>row \<in> set (cursorDiskKV g'). row \<in> set (cursorDiskKV g) \<or> jsonObject (snd row))"
proof (cases "map_of (cursorDiskKV g) (''composerData:'' @ old)")
  case None
  with g wr show ?thesis by (simp add: copyComposerEntry_def)
next
  case (Some c)
  with meta obtain fs where c: "c = Parsed (JObj fs)"
    and it: "headersIterable (map_of fs ''fullConversationHeadersOnly'')"
    by (cases "Some c" rule: metadataCopyable.cases) simp_all
  let ?fs1 = "setField ''composerId'' (JStr new) fs"
  have hd: "map_of ?fs1 ''fullConversationHeadersOnly'' = map_of fs ''fullConversationHeadersOnly''"
    by (rule map_of_setField_other) simp
  from it obtain hs where
    iter: "iterationOf (map_of fs ''fullConversationHeadersOnly'') = Inr hs" and nn: "JNull \<notin> set hs"
    by (cases "map_of fs ''fullConversationHeadersOnly''" rule: headersIterable.cases) simp_all
  from remapHeaders_completes[OF nn, of Map.empty "[]" w] obtain m hs' w1 where
    rm: "remapHeaders hs Map.empty [] w = (Inr (m, hs'), w1)" and g1: "globalDb w1 = Some g"
    using g by auto
  let ?entry = "Parsed (JObj (setField ''fullConversationHeadersOnly'' (JArr hs') ?fs1))"
  from insertOrReplace_writable[OF g1 wr, of "''composerData:'' @ new" ?entry]
  obtain w2 g2 where
    ins: "insertOrReplace (''composerData:'' @ new) ?entry w1 = Inr w2" and
    g2: "globalDb w2 = Some g2" "\<not> globalWriteFails g2" and
    sub: "set (cursorDiskKV g2) \<subseteq> insert (''composerData:'' @ new, ?entry) (set (cursorDiskKV g))"
    by blast
  have run: "copyComposerEntry old new g w = (Inr m, w2)"
    unfolding copyComposerEntry_def using Some c hd iter rm ins by simp
  have "\<forall>row \<in> set (cursorDiskKV g2). row \<in> set (cursorDiskKV g) \<or> jsonObject (snd row)"
    using sub by auto
  with run g2 show ?thesis by blast
qed

lemma replicable_generateSessionId: "replicable old (snd (generateSessionId w)) = replicable old w"
  by (simp add: replicable_def generateSessionId_globalDb)

lemma copyBubbleDataInGlobalStorage_completes:
  assumes "replicable old w"
  shows "\<exists>m w'. copyBubbleDataInGlobalStorage old new w = (Inr m, w')"
proof (cases "globalDb w")
  case None
  then show ?thesis by (simp add: copyBubbleDataInGlobalStorage_def)
next
  case (Some g)
  let ?like = "\<lambda>(k, c). like (''bubbleId:'' @ old @ '':%'') k"
  from assms Some have op: "\<not> globalOpenFails g" and wr: "\<not> globalWriteFails g"
    and meta: "metadataCopyable (map_of (cursorDiskKV g) (''composerData:'' @ old))"
    and rows: "\<forall>row \<in> set (filter ?like (cursorDiskKV g)). jsonObject (snd row)"
    by (auto simp: replicable_def list_all_iff)
  from copyComposerEntry_completes[OF Some wr meta, of new] obtain m w1 g1 where
    ce: "copyComposerEntry old new g w = (Inr m, w1)" and
    g1: "globalDb w1 = Some g1" "\<not> globalWriteFails g1" and
    inh: "\<forall>row \<in> set (cursorDiskKV g1). row \<in> set (cursorDiskKV g) \<or> jsonObject (snd row)"
    by blast
  have sel: "\<forall>row \<in> set (filter ?like (cursorDiskKV g1)). jsonObject (snd row)"
  proof
    fix row assume r: "row \<in> set (filter ?like (cursorDiskKV g1))"
    then have mem: "row \<in> set (cursorDiskKV g1)" and lk: "?like row" by simp_all
    from inh mem have "row \<in> set (cursorDiskKV g) \<or> jsonObject (snd row)" by blast
    then show "jsonObject (snd row)"
    proof
      assume "row \<in> set (cursorDiskKV g)"
      with lk have "row \<in> set (filter ?like (cursorDiskKV g))" by simp
      with rows show ?thesis by blast
    qed
  qed
  from copyBubbleRows_completes[OF g1 sel, of new m] obtain m' w' where
    "copyBubbleRows (filter ?like (cursorDiskKV g1)) new m w1 = (Inr m', w')" by blast
  with Some op ce g1 show ?thesis
    by (simp add: copyBubbleDataInGlobalStorage_def)
qed

lemma performMigration_copy_succeeds:
  assumes oa: "storeOpens w (dbPath A)" and ub: "storeUsable w (dbPath B)"
      and holds: "holdsSession w (dbPath A) sid"
      and global: "replicable sid w"
  shows "\<exists>r w'. performMigration sid Copy srcPath nd A B w = (Inr r, w') \<and>
           r = \<lparr>success = True, sessionId = sid, sourceWorkspace = srcPath,
                destinationWorkspace = nd, mode = Copy,
                newSessionId = Some (fst (generateSessionId w)), error = None, dryRun = False\<rparr>"
proof -
  let ?a = "dbPath A" and ?b = "dbPath B"
  from holdsSession_findIndex[OF holds] obtain sr i where
    sr: "getComposerData w ?a = Some sr" and
    ix: "findIndex (\<lambda>s. composerId s = Some (JStr sid)) (composers sr) = Some i"
    by blast
  obtain nid w1 where g: "generateSessionId w = (nid, w1)" by (cases "generateSessionId w")
  from global replicable_generateSessionId[of sid w] g have "replicable sid w1" by simp
  from copyBubbleDataInGlobalStorage_completes[OF this, of nid] obtain m w2 where
    c: "copyBubbleDataInGlobalStorage sid nid w1 = (Inr m, w2)" by blast
  from generateSessionId_sameStores[of w] g copyBubbleDataInGlobalStorage_sameStores[OF c]
  have "sameStores w w2" by (auto intro: sameStores_trans)
  then have "dbs w2 = dbs w" by (simp add: sameStores_def)
  with ub have ub2: "storeUsable w2 ?b" by (simp add: storeUsable_def)
  let ?dest = "getComposerData w ?b"
  let ?dc = "case ?dest of None \<Rightarrow> [] | Some dr \<Rightarrow> composers dr"
  let ?df = "case ?dest of None \<Rightarrow> isNewFormat sr | Some dr \<Rightarrow> isNewFormat dr"
  let ?dr = "case ?dest of None \<Rightarrow> None | Some dr \<Rightarrow> rawData dr"
  let ?copied = "setField ''composerId'' (JStr nid) (composers sr ! i)"
  from updateComposerData_usable[OF ub2, of "?dc @ [?copied]" ?df ?dr] obtain w3 where
    u: "updateComposerData ?b (?dc @ [?copied]) ?df ?dr w2 = Inr w3" by blast
  have "performMigration sid Copy srcPath nd A B w =
          (Inr \<lparr>success = True, sessionId = sid, sourceWorkspace = srcPath,
                destinationWorkspace = nd, mode = Copy,
                newSessionId = Some nid, error = None, dryRun = False\<rparr>, w3)"
    unfolding performMigration_def
    by (simp add: openDatabaseReadWrite_opens[OF oa] openDatabaseReadWrite_usable[OF ub]
          sr ix g c u Let_def)
  with g show ?thesis by simp
qed

text \<open>
  Claim C2, as amended. Let store \<open>A\<close> hold the record and open, let the destination
  path resolve to store \<open>B\<close>, differ from \<open>A\<close>'s path after normalization, and let \<open>B\<close>
  open and take writes (the listing gives every workspace its own database file, and
  the global store is replicable). Then \<open>migrateSession\<close> in copy mode, not a dry run,
  succeeds and reports as the new identifier the 36-character string that
  \<open>generateSessionId\<close> builds from the next values of \<open>Math.random\<close>. No store but \<open>B\<close> is
  written: the database of \<open>A\<close>, its array included, is as it was. \<open>B\<close>'s array is the old
  array followed by exactly one record: the first record of \<open>A\<close>'s array with the
  identifier, with its \<open>composerId\<close> field replaced by the new identifier and every
  other field as it was. The new record's identifier is the record's own exactly when
  the generator returns it: nothing in the code compares the two.
\<close>

theorem copy_preserves_the_source:
  assumes wf: "distinct (map dbPath (workspaces w))"
      and src: "findWorkspaceForSession sid w = Some A"
      and dst: "findWorkspaceByPath env (normalizePath env dest) w = Some B"
      and differ: "\<not> pathsEqual env (ws_path A) (normalizePath env dest)"
      and opens: "storeOpens w (dbPath A)"
      and usable: "storeUsable w (dbPath B)"
      and global: "replicable sid w"
  shows "\<exists>w' i. migrateSession env sid dest Copy False w =
           (Inr \<lparr>success = True, sessionId = sid, sourceWorkspace = ws_path A,
                 destinationWorkspace = normalizePath env dest, mode = Copy,
                 newSessionId = Some (fst (generateSessionId w)), error = None,
                 dryRun = False\<rparr>, w') \<and>
           length (fst (generateSessionId w)) = 36 \<and>
           dbs w' (dbPath A) = dbs w (dbPath A) \<and>
           arrayOf w' (dbPath A) = arrayOf w (dbPath A) \<and>
           (\<forall>q. q \<noteq> dbPath B \<longrightarrow> dbs w' q = dbs w q) \<and>
           findIndex (\<lambda>s. composerId s = Some (JStr sid)) (arrayOf w (dbPath A)) = Some i \<and>
           arrayOf w' (dbPath B) =
             arrayOf w (dbPath B) @
               [setField ''composerId'' (JStr (fst (generateSessionId w))) (arrayOf w (dbPath A) ! i)] \<and>
           (\<forall>k. k \<noteq> ''composerId'' \<longrightarrow>
                map_of (last (arrayOf w' (dbPath B))) k = map_of (arrayOf w (dbPath A) ! i) k) \<and>
           composerId (last (arrayOf w' (dbPath B))) = Some (JStr (fst (generateSessionId w))) \<and>
           (composerId (last (arrayOf w' (dbPath B))) = composerId (arrayOf w (dbPath A) ! i)
              \<longleftrightarrow> fst (generateSessionId w) = sid)"
proof -
  let ?nd = "normalizePath env dest"
  let ?nid = "fst (generateSessionId w)"
  let ?P = "\<lambda>s. composerId s = Some (JStr sid)"
  let ?r = "\<lparr>success = True, sessionId = sid, sourceWorkspace = ws_path A,
             destinationWorkspace = ?nd, mode = Copy,
             newSessionId = Some ?nid, error = None, dryRun = False\<rparr>"
  from find_SomeD[OF src[unfolded findWorkspaceForSession_def]]
  have A: "A \<in> set (workspaces w)" and holds: "holdsSession w (dbPath A) sid" by simp_all
  from find_SomeD[OF dst[unfolded findWorkspaceByPath_def]]
  have B: "B \<in> set (workspaces w)" and eqB: "pathsEqual env (ws_path B) ?nd" by simp_all
  from differ eqB have "A \<noteq> B" by auto
  with distinct_dbPath[OF wf A B] have ne: "dbPath A \<noteq> dbPath B" by blast
  from performMigration_copy_succeeds[OF opens usable holds global, of "ws_path A" ?nd]
  obtain w' where pm: "performMigration sid Copy (ws_path A) ?nd A B w = (Inr ?r, w')"
    by blast
  have run: "migrateSession env sid dest Copy False w = (Inr ?r, w')"
    unfolding migrateSession_def migrateResolved_def Let_def
    by (simp add: src dst differ pm)
  from performMigration_copy[OF pm] obtain i where
    frame: "\<forall>q. q \<noteq> dbPath B \<longrightarrow> dbs w' q = dbs w q" and
    ix: "findIndex ?P (arrayOf w (dbPath A)) = Some i" and
    arr: "arrayOf w' (dbPath B) =
            arrayOf w (dbPath B) @ [setField ''composerId'' (JStr ?nid) (arrayOf w (dbPath A) ! i)]"
    by auto
  from frame ne have sameA: "dbs w' (dbPath A) = dbs w (dbPath A)" by simp
  from findIndex_Some[OF ix] have old: "composerId (arrayOf w (dbPath A) ! i) = Some (JStr sid)"
    by simp
  have new: "composerId (last (arrayOf w' (dbPath B))) = Some (JStr ?nid)"
    unfolding arr by (simp add: composerId_setField)
  have other: "\<forall>k. k \<noteq> ''composerId'' \<longrightarrow>
                 map_of (last (arrayOf w' (dbPath B))) k = map_of (arrayOf w (dbPath A) ! i) k"
    unfolding arr by (simp add: map_of_setField_other)
  have same: "composerId (last (arrayOf w' (dbPath B))) = composerId (arrayOf w (dbPath A) ! i)
                \<longleftrightarrow> ?nid = sid"
    unfolding new old by simp
  from run generateSessionId_length[of w] sameA arrayOf_cong[OF sameA] frame ix arr other new same
  show ?thesis by blast
qed

text \<open>The example: \<open>r1\<close> is copied from \<open>/a\<close> to \<open>/b\<close>.\<close>

theorem copy_preserves_the_source_witness:
  "fst (migrateSession exampleEnv ''r1'' ''/b'' Copy False exampleWorld) =
     Inr \<lparr>success = True, sessionId = ''r1'', sourceWorkspace = ''/a'',
          destinationWorkspace = ''/b'', mode = Copy,
          newSessionId = Some ''01234567-89ab-4cde-b012-3456789abcde'', error = None,
          dryRun = False\<rparr> \<and>
   dbs (snd (migrateSession exampleEnv ''r1'' ''/b'' Copy False exampleWorld)) ''da''
     = dbs exampleWorld ''da'' \<and>
   arrayOf (snd (migrateSession exampleEnv ''r1'' ''/b'' Copy False exampleWorld)) ''da''
     = arrayOf exampleWorld ''da'' \<and>
   arrayOf (snd (migrateSession exampleEnv ''r1'' ''/b'' Copy False exampleWorld)) ''db''
     = [[(''composerId'', JStr ''01234567-89ab-4cde-b012-3456789abcde''), (''name'', JStr ''chat'')]]"
proof -
  let ?A = "\<lparr>ws_id = ''1'', ws_path = ''/a'', dbPath = ''da''\<rparr>"
  let ?B = "\<lparr>ws_id = ''2'', ws_path = ''/b'', dbPath = ''db''\<rparr>"
  have h1: "distinct (map dbPath (workspaces exampleWorld))" by code_simp
  have h2: "findWorkspaceForSession ''r1'' exampleWorld = Some ?A" by code_simp
  have h3: "findWorkspaceByPath exampleEnv (normalizePath exampleEnv ''/b'') exampleWorld = Some ?B"
    by code_simp
  have h4: "\<not> pathsEqual exampleEnv (ws_path ?A) (normalizePath exampleEnv ''/b'')" by code_simp
  have h5: "storeOpens exampleWorld (dbPath ?A)" by code_simp
  have h6: "storeUsable exampleWorld (dbPath ?B)" by code_simp
  have h7: "replicable ''r1'' exampleWorld" by code_simp
  have nd: "normalizePath exampleEnv ''/b'' = ''/b''" by code_simp
  have gen: "fst (generateSessionId exampleWorld) = ''01234567-89ab-4cde-b012-3456789abcde''"
    by code_simp
  have ix: "findIndex (\<lambda>s. composerId s = Some (JStr ''r1'')) (arrayOf exampleWorld ''da'') = Some 0"
    by code_simp
  have rec: "arrayOf exampleWorld ''da'' ! 0 = [(''composerId'', JStr ''r1''), (''name'', JStr ''chat'')]"
    by code_simp
  have old: "arrayOf exampleWorld ''db'' = []" by code_simp
  from copy_preserves_the_source[OF h1 h2 h3 h4 h5 h6 h7]
  show ?thesis by (auto simp: nd gen ix rec old)
qed

text \<open>Claim C2 as stated says the new identifier differs from the record's. The
  generator is not told the record's identifier: when the random source yields it, the
  copy carries the same identifier as the original.\<close>

theorem copy_may_reuse_the_identifier:
  "fst (migrateSession exampleEnv exampleCollidingId ''/b'' Copy False exampleWorldCollision) =
     Inr \<lparr>success = True, sessionId = exampleCollidingId, sourceWorkspace = ''/a'',
          destinationWorkspace = ''/b'', mode = Copy,
          newSessionId = Some exampleCollidingId, error = None, dryRun = False\<rparr> \<and>
   arrayOf (snd (migrateSession exampleEnv exampleCollidingId ''/b'' Copy False exampleWorldCollision)) ''db''
     = [exampleSession exampleCollidingId]"
  by code_simp

section \<open>Replicating the content items of a copy\<close>

lemma map_of_replaced:
  "map_of (filter (\<lambda>(k', v'). k' \<noteq> k) kv @ [(k, v)]) key =
     (if key = k then Some v else map_of kv key)"
  by (induction kv) (auto simp: map_of_append)

lemma insertOrReplace_Inr:
  assumes "insertOrReplace k v w = Inr w'"
  shows "kvRows w' = filter (\<lambda>(k', v'). k' \<noteq> k) (kvRows w) @ [(k, v)] \<and>
         globalDb w' \<noteq> None \<and> globalDb w \<noteq> None"
  using assms unfolding insertOrReplace_def kvRows_def
  by (auto split: option.splits if_splits)

lemma insertOrReplace_lookup:
  assumes "insertOrReplace k v w = Inr w'"
  shows "map_of (kvRows w') key = (if key = k then Some v else map_of (kvRows w) key)"
  using insertOrReplace_Inr[OF assms] by (simp only: map_of_replaced)

lemma generateSessionId_kvRows: "kvRows (snd (generateSessionId w)) = kvRows w"
  by (simp add: kvRows_def generateSessionId_globalDb)

lemma splitOn_segment:
  "d \<notin> set a \<Longrightarrow> splitOn d (a @ d # rest) = a # splitOn d rest"
  by (induction a) auto

lemma splitOn_plain: "d \<notin> set a \<Longrightarrow> splitOn d a = [a]"
  by (induction a) auto

lemma keyBubbleId_of_key:
  assumes "CHR '':'' \<notin> set old" and "CHR '':'' \<notin> set b"
  shows "keyBubbleId (''bubbleId:'' @ old @ '':'' @ b) = Some b"
proof -
  have "''bubbleId:'' @ old @ '':'' @ b = ''bubbleId'' @ CHR '':'' # (old @ CHR '':'' # b)"
    by simp
  moreover have "CHR '':'' \<notin> set ''bubbleId''" by simp
  ultimately have "splitOn CHR '':'' (''bubbleId:'' @ old @ '':'' @ b) =
      ''bubbleId'' # splitOn CHR '':'' (old @ CHR '':'' # b)"
    using splitOn_segment[of "CHR '':''" "''bubbleId''" "old @ CHR '':'' # b"] by simp
  also have "\<dots> = [''bubbleId'', old, b]"
    using splitOn_segment[OF assms(1), of b] splitOn_plain[OF assms(2)] by simp
  finally show ?thesis by (simp add: keyBubbleId_def nthOpt_def)
qed

lemma like_percent_all: "like ''%'' s"
  by (induction s) simp_all

lemma like_percent_skip: "like ps s \<Longrightarrow> like (CHR ''%'' # ps) s"
  by (cases s) simp_all

lemma like_prefix: "like (p @ ''%'') (p @ s)"
proof (induction p)
  case Nil
  show ?case using like_percent_all by simp
next
  case (Cons c cs)
  show ?case
  proof (cases "c = CHR ''%''")
    case True
    from like_percent_skip[OF Cons.IH] True show ?thesis by simp
  next
    case False
    with Cons.IH show ?thesis by simp
  qed
qed

lemma like_bubble_key:
  "like (''bubbleId:'' @ old @ '':%'') (''bubbleId:'' @ old @ '':'' @ b)"
  using like_prefix[of "''bubbleId:'' @ old @ '':''" b] by simp

lemma not_like_composerData:
  "\<not> like (''bubbleId:'' @ old @ '':%'') (''composerData:'' @ new)"
  by (simp add: lowerAscii_def)

lemma remapHeaders_effect:
  assumes "remapHeaders hs m acc w = (Inr (m', acc'), w')"
      and "\<forall>h \<in> set hs. \<exists>b. getProp h ''bubbleId'' = Inr (Some b) \<and> truthy b"
      and "distinct (map bubbleIdOf hs)"
  shows "acc' = acc @ map (\<lambda>h. spreadWith h ''bubbleId'' (JStr (the (m' (the (bubbleIdOf h)))))) hs \<and>
         (\<forall>h \<in> set hs. m' (the (bubbleIdOf h)) \<noteq> None) \<and>
         (\<forall>k. k \<notin> (\<lambda>h. the (bubbleIdOf h)) ` set hs \<longrightarrow> m' k = m k) \<and>
         kvRows w' = kvRows w"
  using assms
proof (induction hs arbitrary: m acc w)
  case Nil
  then show ?case by simp
next
  case (Cons h hs)
  from Cons.prems(2) obtain b where b: "getProp h ''bubbleId'' = Inr (Some b)" "truthy b"
    by auto
  then have idh: "bubbleIdOf h = Some b" by (simp add: bubbleIdOf_def)
  obtain nid w1 where g: "generateSessionId w = (nid, w1)" by (cases "generateSessionId w")
  from Cons.prems(1) b g
  have rec: "remapHeaders hs (m(b \<mapsto> nid)) (acc @ [spreadWith h ''bubbleId'' (JStr nid)]) w1
               = (Inr (m', acc'), w')"
    by simp
  from Cons.prems(2) have good: "\<forall>h \<in> set hs. \<exists>b. getProp h ''bubbleId'' = Inr (Some b) \<and> truthy b"
    by simp
  from Cons.prems(3) have dist: "distinct (map bubbleIdOf hs)"
    and fresh: "bubbleIdOf h \<notin> bubbleIdOf ` set hs" by simp_all
  note IH = Cons.IH[OF rec good dist]
  have notin: "b \<notin> (\<lambda>h. the (bubbleIdOf h)) ` set hs"
  proof
    assume "b \<in> (\<lambda>h. the (bubbleIdOf h)) ` set hs"
    then obtain h' where h': "h' \<in> set hs" "b = the (bubbleIdOf h')" by auto
    from good h'(1) obtain b' where "getProp h' ''bubbleId'' = Inr (Some b')" by auto
    then have "bubbleIdOf h' = Some b'" by (simp add: bubbleIdOf_def)
    with h'(2) idh have "bubbleIdOf h' = bubbleIdOf h" by simp
    with h'(1) fresh show False by (metis image_eqI)
  qed
  with IH have mb: "m' b = Some nid" by simp
  have k1: "kvRows w1 = kvRows w" using generateSessionId_kvRows[of w] g by simp
  show ?case
  proof (intro conjI)
    from IH mb idh show "acc' = acc @ map (\<lambda>h. spreadWith h ''bubbleId''
             (JStr (the (m' (the (bubbleIdOf h)))))) (h # hs)"
      by simp
    from IH mb idh show "\<forall>h \<in> set (h # hs). m' (the (bubbleIdOf h)) \<noteq> None" by simp
    from IH idh show "\<forall>k. k \<notin> (\<lambda>h. the (bubbleIdOf h)) ` set (h # hs) \<longrightarrow> m' k = m k"
      by auto
    from IH k1 show "kvRows w' = kvRows w" by simp
  qed
qed

lemma remapHeaders_frame: "remapHeaders hs m acc w = (out, w') \<Longrightarrow> kvRows w' = kvRows w"
proof (induction hs arbitrary: m acc w)
  case Nil
  then show ?case by simp
next
  case (Cons h hs)
  show ?case
  proof (cases "getProp h ''bubbleId''")
    case (Inl e)
    with Cons.prems show ?thesis by simp
  next
    case (Inr ob)
    show ?thesis
    proof (cases ob)
      case None
      with Inr Cons.prems Cons.IH show ?thesis by simp
    next
      case (Some b)
      show ?thesis
      proof (cases "truthy b")
        case False
        with Some Inr Cons.prems Cons.IH show ?thesis by simp
      next
        case True
        obtain nid w1 where g: "generateSessionId w = (nid, w1)"
          by (cases "generateSessionId w")
        with True Some Inr Cons.prems
        have "remapHeaders hs (m(b \<mapsto> nid)) (acc @ [spreadWith h ''bubbleId'' (JStr nid)]) w1 = (out, w')"
          by simp
        from Cons.IH[OF this] generateSessionId_kvRows[of w] g show ?thesis by simp
      qed
    qed
  qed
qed

lemma bubbleKey_inject: "bubbleKey c n = bubbleKey c n' \<longleftrightarrow> n = n'"
  by (simp add: bubbleKey_def)

lemma copyBubbleRows_step:
  assumes run: "copyBubbleRows ((k, c) # rest) new m w = (Inr m', w')"
      and b: "keyBubbleId k = Some b" "b \<noteq> []"
  shows "\<exists>nb m1 w1 v v' w2.
           m1 (JStr b) = Some nb \<and> m \<subseteq>\<^sub>m m1 \<and> kvRows w1 = kvRows w \<and>
           c = Parsed v \<and> setProp v ''bubbleId'' (JStr nb) = Inr v' \<and>
           insertOrReplace (bubbleKey new nb) (Parsed v') w1 = Inr w2 \<and>
           copyBubbleRows rest new m1 w2 = (Inr m', w')"
proof -
  define step where "step =
    (case m (JStr b) of
       Some known \<Rightarrow> (known, m, w)
     | None \<Rightarrow> (let (fresh, w') = generateSessionId w
                in (fresh, m(JStr b \<mapsto> fresh), w')))"
  obtain nb m1 w1 where st: "step = (nb, m1, w1)" by (cases step)
  have props: "m1 (JStr b) = Some nb \<and> m \<subseteq>\<^sub>m m1 \<and> kvRows w1 = kvRows w"
  proof (cases "m (JStr b)")
    case None
    obtain fresh wf where g: "generateSessionId w = (fresh, wf)" by (cases "generateSessionId w")
    with None st have "nb = fresh" "m1 = m(JStr b \<mapsto> fresh)" "w1 = wf"
      by (auto simp: step_def)
    with None generateSessionId_kvRows[of w] g show ?thesis
      by (auto simp: map_le_def)
  next
    case (Some known)
    with st have "nb = known" "m1 = m" "w1 = w" by (simp_all add: step_def)
    with Some show ?thesis by simp
  qed
  from run b st[unfolded step_def]
  have body: "(case parseCell c of
                   Inl e \<Rightarrow> (Inl e, w1)
                 | Inr parsed \<Rightarrow>
                     (case setProp parsed ''bubbleId'' (JStr nb) of
                        Inl e \<Rightarrow> (Inl e, w1)
                      | Inr bubbleData \<Rightarrow>
                          (case insertOrReplace (''bubbleId:'' @ new @ '':'' @ nb)
                                  (Parsed bubbleData) w1 of
                             Inl e \<Rightarrow> (Inl e, w1)
                           | Inr w2 \<Rightarrow> copyBubbleRows rest new m1 w2))) = (Inr m', w')"
    by (simp add: keyBubbleId_def)
  then obtain v where v: "parseCell c = Inr v" by (cases "parseCell c") simp_all
  then have c: "c = Parsed v" by (cases c) simp_all
  from body v obtain v' where v': "setProp v ''bubbleId'' (JStr nb) = Inr v'"
    by (cases "setProp v ''bubbleId'' (JStr nb)") simp_all
  from body v v' obtain w2 where
    w2: "insertOrReplace (''bubbleId:'' @ new @ '':'' @ nb) (Parsed v') w1 = Inr w2"
    by (cases "insertOrReplace (''bubbleId:'' @ new @ '':'' @ nb) (Parsed v') w1") simp_all
  from body v v' w2 have "copyBubbleRows rest new m1 w2 = (Inr m', w')" by simp
  with props c v' w2 show ?thesis unfolding bubbleKey_def by blast
qed

lemma copyBubbleRows_skip:
  assumes "copyBubbleRows ((k, c) # rest) new m w = (Inr m', w')"
      and "keyBubbleId k = None \<or> keyBubbleId k = Some []"
  shows "copyBubbleRows rest new m w = (Inr m', w')"
  using assms by (auto simp: keyBubbleId_def)

lemma copyBubbleRows_effect:
  assumes "copyBubbleRows rows new m w = (Inr m', w')"
  shows "m \<subseteq>\<^sub>m m' \<and>
         (\<forall>key. (\<forall>(k, c) \<in> set rows. \<forall>b n. keyBubbleId k = Some b \<longrightarrow> m' (JStr b) = Some n
                     \<longrightarrow> key \<noteq> bubbleKey new n)
                \<longrightarrow> map_of (kvRows w') key = map_of (kvRows w) key) \<and>
         (distinct (map (assignedId m') rows) \<longrightarrow>
            (\<forall>(k, c) \<in> set rows. \<forall>b. keyBubbleId k = Some b \<longrightarrow> b \<noteq> [] \<longrightarrow>
               (\<exists>v v' n. c = Parsed v \<and> m' (JStr b) = Some n \<and>
                    setProp v ''bubbleId'' (JStr n) = Inr v' \<and>
                    map_of (kvRows w') (bubbleKey new n) = Some (Parsed v'))))"
    (is "?le m m' \<and> ?frame rows w w' m' \<and> ?effect rows w' m'")
  using assms
proof (induction rows arbitrary: m w)
  case Nil
  then show ?case by simp
next
  case (Cons row rest)
  obtain k c where row: "row = (k, c)" by (cases row)
  show ?case
  proof (cases "keyBubbleId k = None \<or> keyBubbleId k = Some []")
    case True
    from copyBubbleRows_skip[OF Cons.prems[unfolded row] True]
    have rec: "copyBubbleRows rest new m w = (Inr m', w')" .
    note IH = Cons.IH[OF rec]
    from IH have le: "?le m m'" by simp
    from IH have fr: "?frame rest w w' m'" by simp
    from IH have ef: "?effect rest w' m'" by simp
    have "?frame (row # rest) w w' m'"
    proof (intro allI impI)
      fix key
      assume "\<forall>(k, c) \<in> set (row # rest). \<forall>b n. keyBubbleId k = Some b \<longrightarrow> m' (JStr b) = Some n
                     \<longrightarrow> key \<noteq> bubbleKey new n"
      then have "\<forall>(k, c) \<in> set rest. \<forall>b n. keyBubbleId k = Some b \<longrightarrow> m' (JStr b) = Some n
                     \<longrightarrow> key \<noteq> bubbleKey new n"
        by simp
      with fr show "map_of (kvRows w') key = map_of (kvRows w) key" by blast
    qed
    moreover have "?effect (row # rest) w' m'"
    proof (intro impI)
      assume d: "distinct (map (assignedId m') (row # rest))"
      from d have "distinct (map (assignedId m') rest)" by simp
      with ef have "\<forall>(k, c) \<in> set rest. \<forall>b. keyBubbleId k = Some b \<longrightarrow> b \<noteq> [] \<longrightarrow>
               (\<exists>v v' n. c = Parsed v \<and> m' (JStr b) = Some n \<and>
                    setProp v ''bubbleId'' (JStr n) = Inr v' \<and>
                    map_of (kvRows w') (bubbleKey new n) = Some (Parsed v'))"
        by blast
      with True row show "\<forall>(k, c) \<in> set (row # rest). \<forall>b. keyBubbleId k = Some b \<longrightarrow> b \<noteq> [] \<longrightarrow>
               (\<exists>v v' n. c = Parsed v \<and> m' (JStr b) = Some n \<and>
                    setProp v ''bubbleId'' (JStr n) = Inr v' \<and>
                    map_of (kvRows w') (bubbleKey new n) = Some (Parsed v'))"
        by auto
    qed
    ultimately show ?thesis using le by blast
  next
    case False
    then obtain b where b: "keyBubbleId k = Some b" "b \<noteq> []" by auto
    from copyBubbleRows_step[OF Cons.prems[unfolded row] b]
    obtain nb m1 w1 v v' w2 where
      m1b: "m1 (JStr b) = Some nb" and le1: "m \<subseteq>\<^sub>m m1" and k1: "kvRows w1 = kvRows w" and
      c: "c = Parsed v" and v': "setProp v ''bubbleId'' (JStr nb) = Inr v'" and
      ins: "insertOrReplace (bubbleKey new nb) (Parsed v') w1 = Inr w2" and
      rec: "copyBubbleRows rest new m1 w2 = (Inr m', w')"
      by blast
    note IH = Cons.IH[OF rec]
    from IH have le2: "m1 \<subseteq>\<^sub>m m'" by simp
    from IH have fr: "?frame rest w2 w' m'" by simp
    from IH have ef: "?effect rest w' m'" by simp
    from le1 le2 have le: "?le m m'" by (rule map_le_trans)
    from le2 m1b have m'b: "m' (JStr b) = Some nb"
      by (auto simp: map_le_def dom_def)
    have look2: "map_of (kvRows w2) key = (if key = bubbleKey new nb then Some (Parsed v') else map_of (kvRows w) key)"
      for key using insertOrReplace_lookup[OF ins, of key] k1 by simp
    have "?frame (row # rest) w w' m'"
    proof (intro allI impI)
      fix key
      assume out: "\<forall>(k, c) \<in> set (row # rest). \<forall>b n. keyBubbleId k = Some b \<longrightarrow> m' (JStr b) = Some n
                     \<longrightarrow> key \<noteq> bubbleKey new n"
      then have "\<forall>(k, c) \<in> set rest. \<forall>b n. keyBubbleId k = Some b \<longrightarrow> m' (JStr b) = Some n
                     \<longrightarrow> key \<noteq> bubbleKey new n"
        by simp
      with fr have "map_of (kvRows w') key = map_of (kvRows w2) key" by blast
      moreover from out row b m'b have "key \<noteq> bubbleKey new nb" by auto
      ultimately show "map_of (kvRows w') key = map_of (kvRows w) key" by (simp add: look2)
    qed
    moreover have "?effect (row # rest) w' m'"
    proof (intro impI)
      assume d: "distinct (map (assignedId m') (row # rest))"
      from d have d': "distinct (map (assignedId m') rest)"
        and fresh: "Some nb \<notin> assignedId m' ` set rest"
        using row b m'b by (simp_all add: assignedId_def)
      from ef d' have tail: "\<forall>(k, c) \<in> set rest. \<forall>b. keyBubbleId k = Some b \<longrightarrow> b \<noteq> [] \<longrightarrow>
               (\<exists>v v' n. c = Parsed v \<and> m' (JStr b) = Some n \<and>
                    setProp v ''bubbleId'' (JStr n) = Inr v' \<and>
                    map_of (kvRows w') (bubbleKey new n) = Some (Parsed v'))"
        by blast
      have untouched: "\<forall>(k', c') \<in> set rest. \<forall>b' n'. keyBubbleId k' = Some b' \<longrightarrow> m' (JStr b') = Some n'
                     \<longrightarrow> bubbleKey new nb \<noteq> bubbleKey new n'"
      proof (intro ballI allI impI, clarify)
        fix k' c' b' n'
        assume mem: "(k', c') \<in> set rest" and kb: "keyBubbleId k' = Some b'"
          and mb: "m' (JStr b') = Some n'" and same: "bubbleKey new nb = bubbleKey new n'"
        from same have "nb = n'" by (simp add: bubbleKey_inject)
        with mb kb have "assignedId m' (k', c') = Some nb" by (simp add: assignedId_def)
        with mem fresh show False by (metis image_eqI)
      qed
      with fr have "map_of (kvRows w') (bubbleKey new nb) = map_of (kvRows w2) (bubbleKey new nb)"
        by blast
      then have head: "map_of (kvRows w') (bubbleKey new nb) = Some (Parsed v')"
        by (simp add: look2)
      show "\<forall>(k, c) \<in> set (row # rest). \<forall>b. keyBubbleId k = Some b \<longrightarrow> b \<noteq> [] \<longrightarrow>
               (\<exists>v v' n. c = Parsed v \<and> m' (JStr b) = Some n \<and>
                    setProp v ''bubbleId'' (JStr n) = Inr v' \<and>
                    map_of (kvRows w') (bubbleKey new n) = Some (Parsed v'))"
        using tail head row b c m'b v' by auto
    qed
    ultimately show ?thesis using le by blast
  qed
qed

lemma bubbleIdOf_Some: "bubbleIdOf h = Some x \<Longrightarrow> getProp h ''bubbleId'' = Inr (Some x)"
  by (cases "getProp h ''bubbleId''") (simp_all add: bubbleIdOf_def)

lemma kvRows_Some: "map_of (kvRows w) k = Some c \<Longrightarrow> \<exists>g. globalDb w = Some g \<and> cursorDiskKV g = kvRows w"
  by (cases "globalDb w") (simp_all add: kvRows_def)

lemma copyComposerEntry_effect:
  assumes run: "copyComposerEntry old new g w = (Inr m, w1)"
      and g: "globalDb w = Some g"
      and meta: "map_of (kvRows w) (''composerData:'' @ old) = Some (Parsed (JObj fs))"
      and hdrs: "map_of fs ''fullConversationHeadersOnly'' = Some (JArr hs)"
      and ids: "\<forall>h \<in> set hs. \<exists>b. bubbleIdOf h = Some (JStr b) \<and> b \<noteq> [] \<and> CHR '':'' \<notin> set b"
      and dist: "distinct (map bubbleIdOf hs)"
  shows "(\<forall>h \<in> set hs. m (the (bubbleIdOf h)) \<noteq> None) \<and>
         kvRows w1 =
           filter (\<lambda>(k', v'). k' \<noteq> ''composerData:'' @ new) (kvRows w) @
             [(''composerData:'' @ new,
               Parsed (JObj (setField ''fullConversationHeadersOnly''
                  (JArr (map (\<lambda>h. spreadWith h ''bubbleId'' (JStr (the (m (the (bubbleIdOf h)))))) hs))
                  (setField ''composerId'' (JStr new) fs))))]"
proof -
  let ?fs1 = "setField ''composerId'' (JStr new) fs"
  have kv: "cursorDiskKV g = kvRows w" using g by (simp add: kvRows_def)
  have h1: "map_of ?fs1 ''fullConversationHeadersOnly'' = Some (JArr hs)"
    using hdrs by (simp add: map_of_setField_other)
  have good: "\<forall>h \<in> set hs. \<exists>b. getProp h ''bubbleId'' = Inr (Some b) \<and> truthy b"
  proof
    fix h assume "h \<in> set hs"
    with ids obtain b where "bubbleIdOf h = Some (JStr b)" "b \<noteq> []" by blast
    with bubbleIdOf_Some[of h "JStr b"] show "\<exists>b. getProp h ''bubbleId'' = Inr (Some b) \<and> truthy b"
      by auto
  qed
  obtain o1 w0 where rh: "remapHeaders hs Map.empty [] w = (o1, w0)"
    by (cases "remapHeaders hs Map.empty [] w")
  from run meta kv h1 rh obtain m0 hs' where o1: "o1 = Inr (m0, hs')"
    unfolding copyComposerEntry_def
    by (cases o1) (auto split: sum.splits)
  from remapHeaders_effect[OF rh[unfolded o1] good dist]
  have hs': "hs' = map (\<lambda>h. spreadWith h ''bubbleId'' (JStr (the (m0 (the (bubbleIdOf h)))))) hs"
    and dom: "\<forall>h \<in> set hs. m0 (the (bubbleIdOf h)) \<noteq> None"
    and k0: "kvRows w0 = kvRows w"
    by simp_all
  let ?entry = "Parsed (JObj (setField ''fullConversationHeadersOnly'' (JArr hs') ?fs1))"
  from run meta kv h1 rh o1
  have ins: "insertOrReplace (''composerData:'' @ new) ?entry w0 = Inr w1" and m: "m = m0"
    unfolding copyComposerEntry_def
    by (auto split: sum.splits)
  from insertOrReplace_Inr[OF ins] k0 hs' dom m show ?thesis by simp
qed

lemma segment_inject:
  fixes d :: char
  assumes "d \<notin> set a" "d \<notin> set a'" "a @ d # r = a' @ d # r'"
  shows "a = a'"
proof -
  from assms(3) have "splitOn d (a @ d # r) = splitOn d (a' @ d # r')" by simp
  then show ?thesis
    by (simp add: splitOn_segment[OF assms(1)] splitOn_segment[OF assms(2)])
qed

lemma bubbleKey_composer:
  assumes "CHR '':'' \<notin> set old" "CHR '':'' \<notin> set new" "bubbleKey old b = bubbleKey new n"
  shows "old = new"
proof -
  from assms(3) have "old @ CHR '':'' # b = new @ CHR '':'' # n" by (simp add: bubbleKey_def)
  from segment_inject[OF assms(1,2) this] show ?thesis .
qed

lemma bubbleKey_not_composerData: "bubbleKey c n \<noteq> ''composerData:'' @ x"
  by (simp add: bubbleKey_def)

lemma selected_rows_kvRows:
  "(case globalDb w of None \<Rightarrow> [] | Some g \<Rightarrow> filter P (cursorDiskKV g)) = filter P (kvRows w)"
  by (cases "globalDb w") (simp_all add: kvRows_def)

lemma filter_like_after_insert:
  assumes "\<not> P (k, v)"
  shows "filter P (filter (\<lambda>(k', v'). k' \<noteq> k) kv @ [(k, v)]) =
           filter (\<lambda>(k', v'). k' \<noteq> k) (filter P kv)"
  using assms by (induction kv) auto


text \<open>
  What the replication does when the header list names every bubble once. Let the copy
  of the content of record \<open>old\<close> under the new identifier \<open>new\<close> complete, returning
  \<open>bubbleIdMap\<close>; let the global store hold the metadata of \<open>old\<close> as an object whose
  header list is an array of headers with pairwise distinct bubble ids, each a non-empty
  string without a colon; let \<open>old\<close> hold no colon, and let the rows selected for \<open>old\<close>
  get pairwise distinct new ids. Then
  \<^item> the metadata is stored under \<open>composerData:<new>\<close> with \<open>composerId\<close> replaced by
    \<open>new\<close> and every header rewritten to the new id that \<open>bubbleIdMap\<close> gives its bubble
    id;
  \<^item> for every header, the content item stored under \<open>bubbleId:<old>:<b>\<close> for its
    bubble id \<open>b\<close> is stored again under \<open>bubbleId:<new>:<n>\<close>, with its \<open>bubbleId\<close> set
    to \<open>n\<close>, where \<open>n\<close> is the new id the rewritten header carries;
  \<^item> no key other than \<open>composerData:<new>\<close> and the keys \<open>bubbleId:<new>:...\<close> changes;
    so when \<open>new\<close> differs from \<open>old\<close> and holds no colon, the metadata and the content
    items of the original are untouched.
\<close>

lemma content_items_are_replicated:
  assumes run: "copyBubbleDataInGlobalStorage old new w = (Inr m, w')"
      and meta: "map_of (kvRows w) (''composerData:'' @ old) = Some (Parsed (JObj fs))"
      and hdrs: "map_of fs ''fullConversationHeadersOnly'' = Some (JArr hs)"
      and ids: "\<forall>h \<in> set hs. \<exists>b. bubbleIdOf h = Some (JStr b) \<and> b \<noteq> [] \<and> CHR '':'' \<notin> set b"
      and distinctHeaders: "distinct (map bubbleIdOf hs)"
      and plainOld: "CHR '':'' \<notin> set old"
      and freshIds:
        "distinct (map (assignedId m)
           (filter (\<lambda>(k, c). like (''bubbleId:'' @ old @ '':%'') k) (kvRows w)))"
  shows "map_of (kvRows w') (''composerData:'' @ new) =
           Some (Parsed (JObj (setField ''fullConversationHeadersOnly''
              (JArr (map (\<lambda>h. spreadWith h ''bubbleId'' (JStr (the (m (the (bubbleIdOf h)))))) hs))
              (setField ''composerId'' (JStr new) fs)))) \<and>
         (\<forall>h \<in> set hs. \<forall>b c. bubbleIdOf h = Some (JStr b) \<longrightarrow>
              map_of (kvRows w) (bubbleKey old b) = Some c \<longrightarrow>
              (\<exists>v v' n. c = Parsed v \<and> m (JStr b) = Some n \<and>
                   setProp v ''bubbleId'' (JStr n) = Inr v' \<and>
                   map_of (kvRows w') (bubbleKey new n) = Some (Parsed v'))) \<and>
         (\<forall>key. key \<noteq> ''composerData:'' @ new \<longrightarrow> (\<forall>n. key \<noteq> bubbleKey new n) \<longrightarrow>
              map_of (kvRows w') key = map_of (kvRows w) key) \<and>
         (new \<noteq> old \<longrightarrow> CHR '':'' \<notin> set new \<longrightarrow>
              map_of (kvRows w') (''composerData:'' @ old) = map_of (kvRows w) (''composerData:'' @ old) \<and>
              (\<forall>b. map_of (kvRows w') (bubbleKey old b) = map_of (kvRows w) (bubbleKey old b)))"
proof -
  let ?cd = "''composerData:'' @ new"
  let ?like = "\<lambda>(k, c). like (''bubbleId:'' @ old @ '':%'') k"
  from kvRows_Some[OF meta] obtain g where g: "globalDb w = Some g" by blast
  obtain o1 w1 where ce: "copyComposerEntry old new g w = (o1, w1)"
    by (cases "copyComposerEntry old new g w")
  from run g ce obtain m0 where o1: "o1 = Inr m0"
    unfolding copyBubbleDataInGlobalStorage_def
    by (cases o1) (auto split: if_splits)
  from run g ce o1
  have rows: "copyBubbleRows (filter ?like (kvRows w1)) new m0 w1 = (Inr m, w')"
    unfolding copyBubbleDataInGlobalStorage_def Let_def selected_rows_kvRows
    by (auto split: if_splits)
  let ?entry = "\<lambda>mm. Parsed (JObj (setField ''fullConversationHeadersOnly''
                  (JArr (map (\<lambda>h. spreadWith h ''bubbleId'' (JStr (the (mm (the (bubbleIdOf h)))))) hs))
                  (setField ''composerId'' (JStr new) fs)))"
  from copyComposerEntry_effect[OF ce[unfolded o1] g meta hdrs ids distinctHeaders]
  have dom0: "\<forall>h \<in> set hs. m0 (the (bubbleIdOf h)) \<noteq> None"
    and kv1: "kvRows w1 = filter (\<lambda>(k', v'). k' \<noteq> ?cd) (kvRows w) @ [(?cd, ?entry m0)]"
    by simp_all
  have look1: "map_of (kvRows w1) key = (if key = ?cd then Some (?entry m0) else map_of (kvRows w) key)"
    for key unfolding kv1 by (rule map_of_replaced)
  have nl: "\<not> ?like (?cd, ?entry m0)"
    using not_like_composerData[of old new] by (simp only: prod.case not_False_eq_True)
  have sel1: "filter ?like (kvRows w1) = filter (\<lambda>(k', v'). k' \<noteq> ?cd) (filter ?like (kvRows w))"
    unfolding kv1
    by (rule filter_like_after_insert[of ?like ?cd "?entry m0" "kvRows w", OF nl])
  have keep: "filter (\<lambda>(k', v'). k' \<noteq> ?cd) (filter ?like (kvRows w)) = filter ?like (kvRows w)"
  proof (rule filter_True, clarify)
    fix c assume "(?cd, c) \<in> set (filter ?like (kvRows w))"
    then have "like (''bubbleId:'' @ old @ '':%'') ?cd"
      by (simp only: set_filter mem_Collect_eq prod.case)
    then show False by (rule notE[OF not_like_composerData])
  qed
  have sel: "filter ?like (kvRows w1) = filter ?like (kvRows w)"
    using sel1 keep by simp
  note eff = copyBubbleRows_effect[OF rows[unfolded sel]]
  from eff have le: "m0 \<subseteq>\<^sub>m m" by simp
  from eff have frame:
    "\<And>key. (\<forall>(k, c) \<in> set (filter ?like (kvRows w)). \<forall>b n. keyBubbleId k = Some b \<longrightarrow>
                 m (JStr b) = Some n \<longrightarrow> key \<noteq> bubbleKey new n)
            \<Longrightarrow> map_of (kvRows w') key = map_of (kvRows w1) key"
    by blast
  from eff freshIds have effect:
    "\<forall>(k, c) \<in> set (filter ?like (kvRows w)). \<forall>b. keyBubbleId k = Some b \<longrightarrow> b \<noteq> [] \<longrightarrow>
       (\<exists>v v' n. c = Parsed v \<and> m (JStr b) = Some n \<and>
            setProp v ''bubbleId'' (JStr n) = Inr v' \<and>
            map_of (kvRows w') (bubbleKey new n) = Some (Parsed v'))"
    by blast
  have coarse: "map_of (kvRows w') key = map_of (kvRows w1) key" if "\<forall>n. key \<noteq> bubbleKey new n" for key
    by (rule frame) (use that in auto)
  \<comment> \<open>the new metadata entry\<close>
  have same: "the (m (the (bubbleIdOf h))) = the (m0 (the (bubbleIdOf h)))" if "h \<in> set hs" for h
  proof -
    from dom0 that obtain n where "m0 (the (bubbleIdOf h)) = Some n" by auto
    with le have "m (the (bubbleIdOf h)) = Some n" by (auto simp: map_le_def dom_def)
    with \<open>m0 (the (bubbleIdOf h)) = Some n\<close> show ?thesis by simp
  qed
  have entry: "?entry m = ?entry m0"
    using same by (simp cong: map_cong)
  have one: "map_of (kvRows w') ?cd = Some (?entry m)"
  proof -
    have "map_of (kvRows w') ?cd = map_of (kvRows w1) ?cd"
      by (rule coarse) (simp add: bubbleKey_def)
    with look1[of ?cd] entry show ?thesis by simp
  qed
  \<comment> \<open>the content items the header list refers to\<close>
  have two: "\<forall>h \<in> set hs. \<forall>b c. bubbleIdOf h = Some (JStr b) \<longrightarrow>
              map_of (kvRows w) (bubbleKey old b) = Some c \<longrightarrow>
              (\<exists>v v' n. c = Parsed v \<and> m (JStr b) = Some n \<and>
                   setProp v ''bubbleId'' (JStr n) = Inr v' \<and>
                   map_of (kvRows w') (bubbleKey new n) = Some (Parsed v'))"
  proof (intro ballI allI impI)
    fix h b c
    assume h: "h \<in> set hs" and hb: "bubbleIdOf h = Some (JStr b)"
      and row: "map_of (kvRows w) (bubbleKey old b) = Some c"
    from ids h hb have b: "b \<noteq> []" "CHR '':'' \<notin> set b" by auto
    from map_of_SomeD[OF row] have "(bubbleKey old b, c) \<in> set (kvRows w)" .
    moreover have "like (''bubbleId:'' @ old @ '':%'') (bubbleKey old b)"
      unfolding bubbleKey_def by (rule like_bubble_key)
    ultimately have mem: "(bubbleKey old b, c) \<in> set (filter ?like (kvRows w))" by simp
    have kb: "keyBubbleId (bubbleKey old b) = Some b"
      unfolding bubbleKey_def by (rule keyBubbleId_of_key[OF plainOld b(2)])
    from effect mem kb b(1)
    show "\<exists>v v' n. c = Parsed v \<and> m (JStr b) = Some n \<and>
                   setProp v ''bubbleId'' (JStr n) = Inr v' \<and>
                   map_of (kvRows w') (bubbleKey new n) = Some (Parsed v')"
      by blast
  qed
  \<comment> \<open>everything else\<close>
  have three: "\<forall>key. key \<noteq> ?cd \<longrightarrow> (\<forall>n. key \<noteq> bubbleKey new n) \<longrightarrow>
              map_of (kvRows w') key = map_of (kvRows w) key"
  proof (intro allI impI)
    fix key assume "key \<noteq> ?cd" and "\<forall>n. key \<noteq> bubbleKey new n"
    then show "map_of (kvRows w') key = map_of (kvRows w) key"
      using coarse[of key] look1[of key] by simp
  qed
  have four: "new \<noteq> old \<longrightarrow> CHR '':'' \<notin> set new \<longrightarrow>
              map_of (kvRows w') (''composerData:'' @ old) = map_of (kvRows w) (''composerData:'' @ old) \<and>
              (\<forall>b. map_of (kvRows w') (bubbleKey old b) = map_of (kvRows w) (bubbleKey old b))"
  proof (intro impI conjI allI)
    assume ne: "new \<noteq> old" and plainNew: "CHR '':'' \<notin> set new"
    have "''composerData:'' @ old \<noteq> ?cd" using ne by simp
    moreover have "\<forall>n. ''composerData:'' @ old \<noteq> bubbleKey new n"
      using bubbleKey_not_composerData[of new _ old] by metis
    ultimately show "map_of (kvRows w') (''composerData:'' @ old) = map_of (kvRows w) (''composerData:'' @ old)"
      using three by blast
    fix b
    have "bubbleKey old b \<noteq> ?cd" by (rule bubbleKey_not_composerData)
    moreover have "\<forall>n. bubbleKey old b \<noteq> bubbleKey new n"
      using bubbleKey_composer[OF plainOld plainNew] ne by blast
    ultimately show "map_of (kvRows w') (bubbleKey old b) = map_of (kvRows w) (bubbleKey old b)"
      using three by blast
  qed
  from one two three four show ?thesis by blast
qed

text \<open>The example: the content of \<open>r1\<close> is replicated under \<open>n1\<close>.\<close>

lemma content_items_are_replicated_example:
  "map_of (kvRows (snd (copyBubbleDataInGlobalStorage ''r1'' ''n1'' exampleWorld))) ''composerData:n1'' =
     Some (Parsed (JObj [(''composerId'', JStr ''n1''),
                         (''fullConversationHeadersOnly'',
                            JArr [JObj [(''bubbleId'', JStr ''01234567-89ab-4cde-b012-3456789abcde''),
                                        (''type'', JNum 1)],
                                  JObj [(''bubbleId'', JStr ''f0123456-789a-4bcd-af01-23456789abcd''),
                                        (''type'', JNum 2)]])])) \<and>
   map_of (kvRows (snd (copyBubbleDataInGlobalStorage ''r1'' ''n1'' exampleWorld)))
       (bubbleKey ''n1'' ''01234567-89ab-4cde-b012-3456789abcde'') =
     Some (Parsed (JObj [(''bubbleId'', JStr ''01234567-89ab-4cde-b012-3456789abcde''),
                         (''text'', JStr ''hi'')])) \<and>
   map_of (kvRows (snd (copyBubbleDataInGlobalStorage ''r1'' ''n1'' exampleWorld))) (bubbleKey ''r1'' ''b1'') =
     map_of (kvRows exampleWorld) (bubbleKey ''r1'' ''b1'') \<and>
   map_of (kvRows (snd (copyBubbleDataInGlobalStorage ''r1'' ''n1'' exampleWorld))) ''composerData:r1'' =
     map_of (kvRows exampleWorld) ''composerData:r1''"
proof -
  let ?run = "copyBubbleDataInGlobalStorage ''r1'' ''n1'' exampleWorld"
  let ?m = "projr (fst ?run)"
  let ?w' = "snd ?run"
  let ?h1 = "JObj [(''bubbleId'', JStr ''b1''), (''type'', JNum 1)]"
  let ?h2 = "JObj [(''bubbleId'', JStr ''b2''), (''type'', JNum 2)]"
  let ?hs = "[?h1, ?h2]"
  let ?fs = "[(''composerId'', JStr ''r1''), (''fullConversationHeadersOnly'', JArr ?hs)]"
  let ?c1 = "Parsed (JObj [(''bubbleId'', JStr ''b1''), (''text'', JStr ''hi'')])"
  have "\<not> isl (fst ?run)" by code_simp
  then have "fst ?run = Inr ?m" by simp
  then have run: "?run = (Inr ?m, ?w')" by (simp add: prod_eq_iff)
  have meta: "map_of (kvRows exampleWorld) (''composerData:'' @ ''r1'') = Some (Parsed (JObj ?fs))"
    by code_simp
  have hdrs: "map_of ?fs ''fullConversationHeadersOnly'' = Some (JArr ?hs)" by simp
  have ids: "\<forall>h \<in> set ?hs. \<exists>b. bubbleIdOf h = Some (JStr b) \<and> b \<noteq> [] \<and> CHR '':'' \<notin> set b"
    by (simp add: bubbleIdOf_def)
  have dh: "distinct (map bubbleIdOf ?hs)" by code_simp
  have po: "CHR '':'' \<notin> set ''r1''" by simp
  have fresh: "distinct (map (assignedId ?m)
           (filter (\<lambda>(k, c). like (''bubbleId:'' @ ''r1'' @ '':%'') k) (kvRows exampleWorld)))"
    by code_simp
  have m1: "?m (JStr ''b1'') = Some ''01234567-89ab-4cde-b012-3456789abcde''" by code_simp
  have m2: "?m (JStr ''b2'') = Some ''f0123456-789a-4bcd-af01-23456789abcd''" by code_simp
  have row: "map_of (kvRows exampleWorld) (bubbleKey ''r1'' ''b1'') = Some ?c1" by code_simp
  have b1: "bubbleIdOf ?h1 = Some (JStr ''b1'')" by code_simp
  have b2: "bubbleIdOf ?h2 = Some (JStr ''b2'')" by code_simp
  note main = content_items_are_replicated[OF run meta hdrs ids dh po fresh]
  from main have one:
    "map_of (kvRows ?w') (''composerData:'' @ ''n1'') =
       Some (Parsed (JObj (setField ''fullConversationHeadersOnly''
          (JArr (map (\<lambda>h. spreadWith h ''bubbleId'' (JStr (the (?m (the (bubbleIdOf h)))))) ?hs))
          (setField ''composerId'' (JStr ''n1'') ?fs))))"
    by (rule conjunct1)
  from main have two: "\<forall>h \<in> set ?hs. \<forall>b c. bubbleIdOf h = Some (JStr b) \<longrightarrow>
              map_of (kvRows exampleWorld) (bubbleKey ''r1'' b) = Some c \<longrightarrow>
              (\<exists>v v' n. c = Parsed v \<and> ?m (JStr b) = Some n \<and>
                   setProp v ''bubbleId'' (JStr n) = Inr v' \<and>
                   map_of (kvRows ?w') (bubbleKey ''n1'' n) = Some (Parsed v'))"
    by (rule conjunct1[OF conjunct2])
  from main have four: "''n1'' \<noteq> ''r1'' \<longrightarrow> CHR '':'' \<notin> set ''n1'' \<longrightarrow>
      map_of (kvRows ?w') (''composerData:'' @ ''r1'') = map_of (kvRows exampleWorld) (''composerData:'' @ ''r1'') \<and>
      (\<forall>b. map_of (kvRows ?w') (bubbleKey ''r1'' b) = map_of (kvRows exampleWorld) (bubbleKey ''r1'' b))"
    by (rule conjunct2[OF conjunct2[OF conjunct2]])
  have A: "map_of (kvRows ?w') ''composerData:n1'' =
     Some (Parsed (JObj [(''composerId'', JStr ''n1''),
                         (''fullConversationHeadersOnly'',
                            JArr [JObj [(''bubbleId'', JStr ''01234567-89ab-4cde-b012-3456789abcde''),
                                        (''type'', JNum 1)],
                                  JObj [(''bubbleId'', JStr ''f0123456-789a-4bcd-af01-23456789abcd''),
                                        (''type'', JNum 2)]])]))"
    using one by (simp add: b1 b2 m1 m2)
  from two b1 row have "\<exists>v v' n. ?c1 = Parsed v \<and> ?m (JStr ''b1'') = Some n \<and>
                   setProp v ''bubbleId'' (JStr n) = Inr v' \<and>
                   map_of (kvRows ?w') (bubbleKey ''n1'' n) = Some (Parsed v')"
    by (simp del: map_of.simps)
  then have B: "map_of (kvRows ?w') (bubbleKey ''n1'' ''01234567-89ab-4cde-b012-3456789abcde'') =
     Some (Parsed (JObj [(''bubbleId'', JStr ''01234567-89ab-4cde-b012-3456789abcde''),
                         (''text'', JStr ''hi'')]))"
    by (auto simp: m1)
  from four have C: "map_of (kvRows ?w') (''composerData:'' @ ''r1'') = map_of (kvRows exampleWorld) (''composerData:'' @ ''r1'')"
    and D: "map_of (kvRows ?w') (bubbleKey ''r1'' ''b1'') = map_of (kvRows exampleWorld) (bubbleKey ''r1'' ''b1'')"
    by simp_all
  from A B C D show ?thesis by simp
qed

text \<open>
  Claim C8 says that, for every copy, every content item that the header list refers to
  is stored again under the new record identifier and a fresh content-item id, and that
  the rewritten header points at that id. The first loop of
  \<open>copyBubbleDataInGlobalStorage\<close> draws a fresh id for every header and overwrites the
  entry of \<open>bubbleIdMap\<close>, where the second loop looks the bubble id up before drawing
  one. When the header list of \<open>r1\<close> names the bubble \<open>b1\<close> twice, the two rewritten headers
  carry two fresh ids, the content item is stored under the second one only, and the
  first rewritten header points at a key that holds nothing.
\<close>

theorem repeated_header_points_at_nothing:
  "fst (migrateSession exampleEnv ''r1'' ''/b'' Copy False exampleWorldRepeated) =
     Inr \<lparr>success = True, sessionId = ''r1'', sourceWorkspace = ''/a'',
          destinationWorkspace = ''/b'', mode = Copy,
          newSessionId = Some ''01234567-89ab-4cde-b012-3456789abcde'',
          error = None, dryRun = False\<rparr> \<and>
   map_of (kvRows (snd (migrateSession exampleEnv ''r1'' ''/b'' Copy False exampleWorldRepeated)))
       ''composerData:01234567-89ab-4cde-b012-3456789abcde'' =
     Some (Parsed (JObj [(''composerId'', JStr ''01234567-89ab-4cde-b012-3456789abcde''),
                         (''fullConversationHeadersOnly'',
                            JArr [JObj [(''bubbleId'', JStr ''f0123456-789a-4bcd-af01-23456789abcd''),
                                        (''type'', JNum 1)],
                                  JObj [(''bubbleId'', JStr ''ef012345-6789-4abc-9ef0-123456789abc''),
                                        (''type'', JNum 1)]])])) \<and>
   map_of (kvRows (snd (migrateSession exampleEnv ''r1'' ''/b'' Copy False exampleWorldRepeated)))
       (bubbleKey ''01234567-89ab-4cde-b012-3456789abcde'' ''f0123456-789a-4bcd-af01-23456789abcd'')
     = None \<and>
   map_of (kvRows (snd (migrateSession exampleEnv ''r1'' ''/b'' Copy False exampleWorldRepeated)))
       (bubbleKey ''01234567-89ab-4cde-b012-3456789abcde'' ''ef012345-6789-4abc-9ef0-123456789abc'')
     = Some (Parsed (JObj [(''bubbleId'', JStr ''ef012345-6789-4abc-9ef0-123456789abc''),
                           (''text'', JStr ''hi'')]))"
  by code_simp

end
